theory Spec2Isabelle
  imports Main
begin

section \<open>Data model of \<open>dispatcher/binder.ts\<close>\<close>

text \<open>
  The binder routes named events of seven logical targets to one Bus per target and keeps
  at most one native listener per target and event name. The embedding follows the
  TypeScript source function by function. State that the class mutates (its registries,
  the host dispatcher's kernel and dom fields) is one record that every operation takes
  and returns; calls that leave the class (native attach and detach, kernel subscribe and
  unsubscribe, Bus fan-out) are appended to an effect log in call order. The payload
  \<open>...args\<close> of an event is passed through by the source unchanged and is not modelled,
  and neither are the messages written to \<open>chimeeLog\<close>.
\<close>

text \<open>\<open>typings/base\<close>: \<open>BinderTarget\<close> and \<open>EventStage\<close>. The stage \<open>'_'\<close> is the third
  alternative that the secondary-event pattern can match.\<close>

datatype BinderTarget = Kernel | Container | Wrapper | Video | VideoDom | Plugin | EsFullscreen

datatype EventStage = StageBefore | StageMain | StageAfter | StageUnderscore

text \<open>JavaScript values, as far as the checks of the source (\<open>!x\<close>, \<open>isString\<close>,
  \<open>isFunction\<close>) tell them apart. Functions and objects carry an identity.\<close>

datatype js_value =
    JUndefined
  | JNull
  | JBool bool
  | JNumber int
  | JString string
  | JFunction nat
  | JObject nat

fun truthy :: "js_value \<Rightarrow> bool" where
  "truthy JUndefined = False"
| "truthy JNull = False"
| "truthy (JBool b) = b"
| "truthy (JNumber n) = (n \<noteq> 0)"
| "truthy (JString s) = (s \<noteq> [])"
| "truthy (JFunction _) = True"
| "truthy (JObject _) = True"

fun isString :: "js_value \<Rightarrow> bool" where
  "isString (JString _) = True"
| "isString _ = False"

fun isFunction :: "js_value \<Rightarrow> bool" where
  "isFunction (JFunction _) = True"
| "isFunction _ = False"

text \<open>DOM nodes and kernel instances are opaque identities.\<close>

type_synonym node = nat
type_synonym kernel_ref = nat

text \<open>The native callbacks that the binder builds. Each arrow function of the source is
  one constructor holding the variables it closes over; \<open>Closure\<close> adds the identity of
  the function object, taken from a counter of the state, since every evaluation of an
  arrow function yields a new object.\<close>

datatype native_fn =
    TriggerSyncFn BinderTarget string string
  | TriggerFn BinderTarget string string
  | MouseMoveFn string

datatype callback = Closure nat native_fn

text \<open>Calls that leave the binder, in call order.\<close>

datatype effect =
    AddEvent node string callback
  | RemoveEvent node string callback
  | KernelOn kernel_ref string callback
  | KernelOff kernel_ref string callback
  | BusEmit BinderTarget string
  | BusEmitSync BinderTarget string
  | BusTrigger BinderTarget string
  | BusTriggerSync BinderTarget string

datatype error = InvalidHandler string | TypeError

record additionalEventInfo =
  ai_name :: string
  ai_stage :: EventStage
  ai_target :: BinderTarget

record rawEventInfo =
  raw_fn :: js_value
  raw_id :: string
  raw_name :: string
  raw_stage :: "EventStage option"
  raw_target :: "BinderTarget option"

record wholeEventInfo =
  w_fn :: js_value
  w_id :: string
  w_name :: string
  w_stage :: EventStage
  w_target :: BinderTarget

text \<open>The first argument of \<open>emit\<close>, \<open>emitSync\<close>, \<open>trigger\<close> and \<open>triggerSync\<close>. The
  decorator checks \<open>id\<close> and \<open>name\<close> at run time, so both are arbitrary values here.\<close>

record emitInfo =
  e_id :: js_value
  e_name :: js_value
  e_stage :: "EventStage option"
  e_target :: "BinderTarget option"

text \<open>The event payload that the containment listener reads.\<close>

record mouse_event =
  toElement :: "node option"
  currentTarget :: "node option"
  relatedTarget :: "node option"
  ev_type :: string

text \<open>
  What the source imports and this development takes as a parameter: the membership
  tables and \<open>isMustListenVideoDomEvent\<close> of \<open>const/event\<close>, lodash's \<open>camelCase\<close>, and the
  host's \<open>dom.isNodeInsideVideo\<close>.
\<close>

record env =
  videoEvents :: "string list"
  kernelEvents :: "string list"
  domEvents :: "string list"
  esFullscreenEvents :: "string list"
  mustListenVideoDomEvents :: "string list"
  isMustListenVideoDomEvent :: "string \<Rightarrow> bool"
  camelCase :: "string \<Rightarrow> string"
  isNodeInsideVideo :: "node option \<Rightarrow> bool"

subsection \<open>The Bus\<close>

text \<open>
  Modelled from the spec: the class \<open>Bus\<close> of \<open>dispatcher/bus\<close> is not among the sources.
  Its contract in the specification is \<open>on(id, name, handler, stage)\<close>,
  \<open>once(id, name, handler, stage)\<close>, \<open>off(id, name, handler, stage)\<close> and \<open>hasEvents()\<close>,
  "true if any logical subscriber remains for the Bus's target, any name/id/stage". A Bus
  is the list of its subscriptions; the fan-out operations are calls in the effect log.
\<close>

record subscription =
  sub_id :: string
  sub_name :: string
  sub_fn :: js_value
  sub_stage :: EventStage
  sub_once :: bool

type_synonym bus = "subscription list"

definition bus_on :: "string \<Rightarrow> string \<Rightarrow> js_value \<Rightarrow> EventStage \<Rightarrow> bus \<Rightarrow> bus" where
  "bus_on i n f s b =
     b @ [\<lparr>sub_id = i, sub_name = n, sub_fn = f, sub_stage = s, sub_once = False\<rparr>]"

definition bus_once :: "string \<Rightarrow> string \<Rightarrow> js_value \<Rightarrow> EventStage \<Rightarrow> bus \<Rightarrow> bus" where
  "bus_once i n f s b =
     b @ [\<lparr>sub_id = i, sub_name = n, sub_fn = f, sub_stage = s, sub_once = True\<rparr>]"

definition bus_off :: "string \<Rightarrow> string \<Rightarrow> js_value \<Rightarrow> EventStage \<Rightarrow> bus \<Rightarrow> bus" where
  "bus_off i n f s b =
     filter (\<lambda>x. \<not> (sub_id x = i \<and> sub_name x = n \<and> sub_fn x = f \<and> sub_stage x = s)) b"

definition bus_hasEvents :: "bus \<Rightarrow> bool" where
  "bus_hasEvents b = (b \<noteq> [])"

text \<open>The subscribers of one event name, of any id and stage.\<close>

definition bus_subscribers :: "string \<Rightarrow> bus \<Rightarrow> subscription list" where
  "bus_subscribers n b = filter (\<lambda>x. sub_name x = n) b"

subsection \<open>The state\<close>

record Binder =
  bindedEventInfo :: "BinderTarget \<Rightarrow> (string \<times> callback) list"
  bindedEventNames :: "BinderTarget \<Rightarrow> string list"
  buses :: "BinderTarget \<Rightarrow> bus"
  pendingEventsInfo :: "BinderTarget \<Rightarrow> (string \<times> string) list"
  kernel :: "kernel_ref option"
  dom_container :: node
  dom_wrapper :: node
  dom_videoElement :: node
  dom_videoExtendedNodes :: "node list"
  dom_mouseInVideo :: bool
  nextClosure :: nat
  effects :: "effect list"

definition kinds :: "BinderTarget list" where
  "kinds = [Kernel, Container, Wrapper, Video, VideoDom, Plugin, EsFullscreen]"

text \<open>The constructor: every registry empty, one empty Bus per kind. The host's fields
  are arguments.\<close>

definition Binder_new :: "kernel_ref option \<Rightarrow> node \<Rightarrow> node \<Rightarrow> node \<Rightarrow> node list \<Rightarrow> Binder" where
  "Binder_new k c w v ext =
     \<lparr>bindedEventInfo = (\<lambda>_. []), bindedEventNames = (\<lambda>_. []), buses = (\<lambda>_. []),
      pendingEventsInfo = (\<lambda>_. []), kernel = k, dom_container = c, dom_wrapper = w,
      dom_videoElement = v, dom_videoExtendedNodes = ext, dom_mouseInVideo = False,
      nextClosure = 0, effects = []\<rparr>"

section \<open>Name and target resolution\<close>

text \<open>\<open>new RegExp('^(c|w)_')\<close>.\<close>

definition targetKeyReg_matches :: "string \<Rightarrow> bool" where
  "targetKeyReg_matches s = (take 2 s = ''c_'' \<or> take 2 s = ''w_'')"

definition getEventTargetByOldLogic :: "string \<Rightarrow> (string \<times> BinderTarget) option" where
  "getEventTargetByOldLogic oldName =
     (if targetKeyReg_matches oldName then
        Some (drop 2 oldName, if take 1 oldName = ''c'' then Container else Wrapper)
      else if oldName = ''error'' then Some (''error'', Kernel)
      else None)"

text \<open>
  Modelled from the spec: the constant \<open>secondaryEventReg\<close> of \<open>const/regExp\<close> is not among
  the sources. The specification calls it the pattern of the "reserved prefixes meaning
  before-phase / after-phase / internal", and the error message of \<open>isEventEmitalbe\<close> names
  them: a legal name "could not started with before/after/_". The result is the matched
  prefix, \<open>matches[0]\<close>, as a stage, with the rest of the name.
\<close>

definition secondaryEventReg_match :: "string \<Rightarrow> (EventStage \<times> string) option" where
  "secondaryEventReg_match s =
     (if take 6 s = ''before'' then Some (StageBefore, drop 6 s)
      else if take 5 s = ''after'' then Some (StageAfter, drop 5 s)
      else if take 1 s = ''_'' then Some (StageUnderscore, drop 1 s)
      else None)"

definition secondaryEventReg_test :: "string \<Rightarrow> bool" where
  "secondaryEventReg_test s = (secondaryEventReg_match s \<noteq> None)"

definition getEventStage :: "env \<Rightarrow> string \<Rightarrow> string \<times> EventStage" where
  "getEventStage env nm =
     (case secondaryEventReg_match nm of
        Some (stage, rest) \<Rightarrow> (camelCase env rest, stage)
      | None \<Rightarrow> (nm, StageMain))"

definition getEventTargetByEventName :: "env \<Rightarrow> string \<Rightarrow> BinderTarget" where
  "getEventTargetByEventName env nm =
     (if nm \<in> set (videoEvents env) then Video
      else if nm \<in> set (kernelEvents env) then Kernel
      else if nm \<in> set (domEvents env) then VideoDom
      else if nm \<in> set (esFullscreenEvents env) then EsFullscreen
      else Plugin)"

definition getEventInfo ::
  "env \<Rightarrow> string \<Rightarrow> BinderTarget option \<Rightarrow> EventStage option \<Rightarrow> additionalEventInfo" where
  "getEventInfo env nm target stage =
     (let oldInfo = getEventTargetByOldLogic nm;
          nm1 = (case oldInfo of Some (n, _) \<Rightarrow> n | None \<Rightarrow> nm);
          target1 = (case oldInfo of Some (_, t) \<Rightarrow> Some t | None \<Rightarrow> target);
          (newName, newStage) = getEventStage env nm1;
          target2 = (case target1 of
                       None \<Rightarrow> getEventTargetByEventName env newName
                     | Some t \<Rightarrow> t)
      in \<lparr>ai_name = newName,
          ai_stage = (case stage of Some s \<Rightarrow> s | None \<Rightarrow> newStage),
          ai_target = target2\<rparr>)"

definition prettifyEventParameter :: "env \<Rightarrow> rawEventInfo \<Rightarrow> error + wholeEventInfo" where
  "prettifyEventParameter env info =
     (let r = getEventInfo env (raw_name info) (raw_target info) (raw_stage info)
      in if \<not> isFunction (raw_fn info) then Inl (InvalidHandler (ai_name r))
         else Inr \<lparr>w_fn = raw_fn info, w_id = raw_id info, w_name = ai_name r,
                   w_stage = ai_stage r, w_target = ai_target r\<rparr>)"

definition isEventEmitalbe :: "emitInfo \<Rightarrow> bool" where
  "isEventEmitalbe info =
     (if \<not> truthy (e_name info) \<or> \<not> isString (e_name info)
         \<or> (case e_name info of JString s \<Rightarrow> secondaryEventReg_test s | _ \<Rightarrow> False)
      then False
      else if \<not> truthy (e_id info) \<or> \<not> isString (e_id info) then False
      else True)"

section \<open>The native attachment registry\<close>

definition isEventNeedToBeHandled :: "env \<Rightarrow> BinderTarget \<Rightarrow> string \<Rightarrow> bool" where
  "isEventNeedToBeHandled env target nm =
     (target \<noteq> Plugin \<and> target \<noteq> EsFullscreen
      \<and> (\<not> isMustListenVideoDomEvent env nm \<or> target \<noteq> Video))"

definition getTargetDom :: "Binder \<Rightarrow> BinderTarget \<Rightarrow> node" where
  "getTargetDom st target =
     (case target of
        Container \<Rightarrow> dom_container st
      | Wrapper \<Rightarrow> dom_wrapper st
      | _ \<Rightarrow> dom_videoElement st)"

text \<open>The string that a target is in the source; the native callbacks pass it as id.\<close>

fun targetName :: "BinderTarget \<Rightarrow> string" where
  "targetName Kernel = ''kernel''"
| "targetName Container = ''container''"
| "targetName Wrapper = ''wrapper''"
| "targetName Video = ''video''"
| "targetName VideoDom = ''video-dom''"
| "targetName Plugin = ''plugin''"
| "targetName EsFullscreen = ''esFullscreen''"

definition addPendingEvent :: "BinderTarget \<Rightarrow> string \<Rightarrow> string \<Rightarrow> Binder \<Rightarrow> Binder" where
  "addPendingEvent target nm i st =
     st\<lparr>pendingEventsInfo :=
          (pendingEventsInfo st)(target := pendingEventsInfo st target @ [(nm, i)])\<rparr>"

text \<open>The two pushes that end \<open>addEventListenerOnTarget\<close> and \<open>listenOnMouseMoveEvent\<close>.\<close>

definition pushBinding :: "BinderTarget \<Rightarrow> string \<Rightarrow> callback \<Rightarrow> Binder \<Rightarrow> Binder" where
  "pushBinding target nm fn st =
     st\<lparr>bindedEventNames := (bindedEventNames st)(target := bindedEventNames st target @ [nm]),
        bindedEventInfo := (bindedEventInfo st)(target := bindedEventInfo st target @ [(nm, fn)])\<rparr>"

text \<open>Evaluating an arrow function: a new function object.\<close>

definition newClosure :: "native_fn \<Rightarrow> Binder \<Rightarrow> callback \<times> Binder" where
  "newClosure body st = (Closure (nextClosure st) body, st\<lparr>nextClosure := Suc (nextClosure st)\<rparr>)"

definition perform :: "effect list \<Rightarrow> Binder \<Rightarrow> Binder" where
  "perform es st = st\<lparr>effects := effects st @ es\<rparr>"

text \<open>The targets \<open>plugin\<close> and \<open>esFullscreen\<close> have left at the first check; for them no
  branch of the source's \<open>if\<close> chain is taken.\<close>

definition addEventListenerOnTarget ::
  "env \<Rightarrow> string \<Rightarrow> BinderTarget \<Rightarrow> string \<Rightarrow> Binder \<Rightarrow> Binder" where
  "addEventListenerOnTarget env nm target i st =
     (if \<not> isEventNeedToBeHandled env target nm then st
      else if nm \<in> set (bindedEventNames st target) then st
      else
        let targetDom = getTargetDom st target in
        if target = Kernel then
          (case kernel st of
             None \<Rightarrow> addPendingEvent target nm i st
           | Some k \<Rightarrow>
               let (fn, st1) = newClosure (TriggerSyncFn target nm ''kernel'') st
               in pushBinding target nm fn (perform [KernelOn k nm fn] st1))
        else if target = Container \<or> target = Wrapper then
          (let (fn, st1) = newClosure (TriggerSyncFn target nm (targetName target)) st
           in pushBinding target nm fn (perform [AddEvent targetDom nm fn] st1))
        else if target = Video then
          (let (fn, st1) = newClosure (TriggerFn target nm (targetName target)) st
           in pushBinding target nm fn (perform [AddEvent targetDom nm fn] st1))
        else if target = VideoDom then
          (let (fn, st1) = newClosure (TriggerSyncFn target nm (targetName target)) st
           in pushBinding target nm fn
                (perform (map (\<lambda>node. AddEvent node nm fn) (dom_videoExtendedNodes st1)
                          @ [AddEvent targetDom nm fn]) st1))
        else st)"

text \<open>\<open>Array.prototype.indexOf\<close>, with \<open>None\<close> for \<open>-1\<close>.\<close>

fun indexOf :: "'a \<Rightarrow> 'a list \<Rightarrow> nat option" where
  "indexOf x [] = None"
| "indexOf x (y # ys) =
     (if x = y then Some 0 else (case indexOf x ys of None \<Rightarrow> None | Some k \<Rightarrow> Some (Suc k)))"

text \<open>The \<open>for\<close> loop of \<open>removeEventListenerOnTargetWhenIsUseless\<close>: the index and the
  function of the first pair with the name; \<open>None\<close> when the loop ends with \<open>fn\<close> undefined.\<close>

fun findBinded :: "string \<Rightarrow> (string \<times> callback) list \<Rightarrow> (nat \<times> callback) option" where
  "findBinded nm [] = None"
| "findBinded nm (p # ps) =
     (if fst p = nm then Some (0, snd p)
      else (case findBinded nm ps of None \<Rightarrow> None | Some (k, fn) \<Rightarrow> Some (Suc k, fn)))"

text \<open>\<open>xs.splice(i, 1)\<close>.\<close>

definition splice1 :: "nat \<Rightarrow> 'a list \<Rightarrow> 'a list" where
  "splice1 i xs = take i xs @ drop (Suc i) xs"

definition removeEventListenerOnTargetWhenIsUseless ::
  "env \<Rightarrow> string \<Rightarrow> BinderTarget \<Rightarrow> Binder \<Rightarrow> error + Binder" where
  "removeEventListenerOnTargetWhenIsUseless env nm target st =
     (if \<not> isEventNeedToBeHandled env target nm then Inr st
      else
        (case indexOf nm (bindedEventNames st target) of
           None \<Rightarrow> Inr st
         | Some nameIndex \<Rightarrow>
             if bus_hasEvents (buses st target) then Inr st
             else
               (case findBinded nm (bindedEventInfo st target) of
                  None \<Rightarrow> Inr st
                | Some (index, fn) \<Rightarrow>
                    (case
                       (if target = Kernel then
                          (case kernel st of
                             None \<Rightarrow> Inl TypeError
                           | Some k \<Rightarrow> Inr (perform [KernelOff k nm fn] st))
                        else
                          Inr (perform
                                 (RemoveEvent (getTargetDom st target) nm fn
                                  # (if target = VideoDom
                                     then map (\<lambda>node. RemoveEvent node nm fn)
                                            (dom_videoExtendedNodes st)
                                     else [])) st))
                     of
                       Inl e \<Rightarrow> Inl e
                     | Inr st1 \<Rightarrow>
                         Inr (st1\<lparr>bindedEventInfo :=
                                    (bindedEventInfo st1)
                                      (target := splice1 index (bindedEventInfo st1 target)),
                                  bindedEventNames :=
                                    (bindedEventNames st1)
                                      (target := splice1 nameIndex (bindedEventNames st1 target))\<rparr>)))))"

section \<open>The pending queue\<close>

text \<open>The \<open>while\<close> loop of \<open>applyPendingEvents\<close>: \<open>pop()\<close> takes the last element.\<close>

function applyPendingLoop ::
  "env \<Rightarrow> BinderTarget \<Rightarrow> (string \<times> string) list \<Rightarrow> Binder \<Rightarrow> Binder" where
  "applyPendingLoop env target pendingEventsCopy st =
     (if pendingEventsCopy = [] then st
      else
        let (nm, i) = last pendingEventsCopy
        in applyPendingLoop env target (butlast pendingEventsCopy)
             (addEventListenerOnTarget env nm target i st))"
  by pat_completeness auto
termination
  by (relation "measure (\<lambda>(env, target, copy, st). length copy)") auto

declare applyPendingLoop.simps [simp del]

text \<open>\<open>splice(0, length)\<close> empties the array of the state and returns its elements.\<close>

definition applyPendingEvents :: "env \<Rightarrow> BinderTarget \<Rightarrow> Binder \<Rightarrow> Binder" where
  "applyPendingEvents env target st =
     (let pendingEvents = pendingEventsInfo st target;
          pendingEventsCopy = pendingEvents;
          st1 = st\<lparr>pendingEventsInfo := (pendingEventsInfo st)(target := [])\<rparr>
      in applyPendingLoop env target pendingEventsCopy st1)"

text \<open>The replay as the specification words it: "the source enqueue order (FIFO)".\<close>

definition applyPendingEvents_fifo :: "env \<Rightarrow> BinderTarget \<Rightarrow> Binder \<Rightarrow> Binder" where
  "applyPendingEvents_fifo env target st =
     foldl (\<lambda>s (nm, i). addEventListenerOnTarget env nm target i s)
       (st\<lparr>pendingEventsInfo := (pendingEventsInfo st)(target := [])\<rparr>)
       (pendingEventsInfo st target)"

section \<open>Emission\<close>

text \<open>What a call returns: a value of its own, or whatever the Bus returned.\<close>

datatype call_result = Returned js_value | BusResult

text \<open>
  The decorator \<open>@runnable(cond, { backup })\<close> of toxic-decorators: the method runs when
  the condition holds of its arguments; otherwise the call returns \<open>backup()\<close>, which is
  \<open>undefined\<close> where no backup is given.
\<close>

definition runnable ::
  "(emitInfo \<Rightarrow> bool) \<Rightarrow> js_value \<Rightarrow> (emitInfo \<Rightarrow> Binder \<Rightarrow> error + Binder \<times> call_result)
   \<Rightarrow> emitInfo \<Rightarrow> Binder \<Rightarrow> error + Binder \<times> call_result" where
  "runnable cond backup method info st =
     (if cond info then method info st else Inr (st, Returned backup))"

text \<open>The body shared by the four methods, with the Bus method as \<open>call\<close>. On a name that
  is no string, \<open>name.match\<close> in \<open>getEventTargetByOldLogic\<close> raises a TypeError.\<close>

definition fanOut ::
  "(BinderTarget \<Rightarrow> string \<Rightarrow> effect) \<Rightarrow> env \<Rightarrow> emitInfo \<Rightarrow> Binder
   \<Rightarrow> error + Binder \<times> call_result" where
  "fanOut call env info st =
     (case e_name info of
        JString nm \<Rightarrow>
          (let target = ai_target (getEventInfo env nm (e_target info) (e_stage info))
           in Inr (perform [call target nm] st, BusResult))
      | _ \<Rightarrow> Inl TypeError)"

definition emit :: "env \<Rightarrow> emitInfo \<Rightarrow> Binder \<Rightarrow> error + Binder \<times> call_result" where
  "emit env = runnable isEventEmitalbe JUndefined (fanOut BusEmit env)"

definition emitSync :: "env \<Rightarrow> emitInfo \<Rightarrow> Binder \<Rightarrow> error + Binder \<times> call_result" where
  "emitSync env = runnable isEventEmitalbe (JBool False) (fanOut BusEmitSync env)"

definition trigger :: "env \<Rightarrow> emitInfo \<Rightarrow> Binder \<Rightarrow> error + Binder \<times> call_result" where
  "trigger env = runnable isEventEmitalbe JUndefined (fanOut BusTrigger env)"

definition triggerSync :: "env \<Rightarrow> emitInfo \<Rightarrow> Binder \<Rightarrow> error + Binder \<times> call_result" where
  "triggerSync env = runnable isEventEmitalbe (JBool False) (fanOut BusTriggerSync env)"

section \<open>The containment listener\<close>

text \<open>The arrow function that \<open>listenOnMouseMoveEvent\<close> builds for the name \<open>nm\<close>.\<close>

definition mouseMoveFn ::
  "env \<Rightarrow> string \<Rightarrow> mouse_event \<Rightarrow> Binder \<Rightarrow> error + Binder \<times> call_result" where
  "mouseMoveFn env nm ev st =
     (let to = (case toElement ev of Some n \<Rightarrow> Some n | None \<Rightarrow> relatedTarget ev);
          info = \<lparr>e_id = JString ''_vm'', e_name = JString nm, e_stage = None,
                  e_target = Some VideoDom\<rparr>
      in if dom_mouseInVideo st \<and> ev_type ev = ''mouseleave'' \<and> \<not> isNodeInsideVideo env to
         then triggerSync env info (st\<lparr>dom_mouseInVideo := False\<rparr>)
         else if \<not> dom_mouseInVideo st \<and> ev_type ev = ''mouseenter''
                 \<and> isNodeInsideVideo env (currentTarget ev)
         then triggerSync env info (st\<lparr>dom_mouseInVideo := True\<rparr>)
         else Inr (st, Returned JUndefined))"

definition listenOnMouseMoveEvent_each :: "node \<Rightarrow> Binder \<Rightarrow> string \<Rightarrow> Binder" where
  "listenOnMouseMoveEvent_each node st nm =
     (let (fn, st1) = newClosure (MouseMoveFn nm) st;
          st2 = perform [AddEvent node nm fn] st1
      in if nm \<notin> set (bindedEventNames st2 VideoDom) then pushBinding VideoDom nm fn st2
         else st2)"

definition listenOnMouseMoveEvent :: "env \<Rightarrow> node \<Rightarrow> Binder \<Rightarrow> Binder" where
  "listenOnMouseMoveEvent env node st =
     foldl (listenOnMouseMoveEvent_each node) st (mustListenVideoDomEvents env)"

text \<open>Calling a native callback, as the physical source does when the event fires.\<close>

fun runNativeFn ::
  "env \<Rightarrow> callback \<Rightarrow> mouse_event \<Rightarrow> Binder \<Rightarrow> error + Binder \<times> call_result" where
  "runNativeFn env (Closure _ (TriggerSyncFn target nm i)) ev st =
     triggerSync env
       \<lparr>e_id = JString i, e_name = JString nm, e_stage = None, e_target = Some target\<rparr> st"
| "runNativeFn env (Closure _ (TriggerFn target nm i)) ev st =
     trigger env
       \<lparr>e_id = JString i, e_name = JString nm, e_stage = None, e_target = Some target\<rparr> st"
| "runNativeFn env (Closure _ (MouseMoveFn nm)) ev st = mouseMoveFn env nm ev st"

section \<open>Subscription, migration and destruction\<close>

definition on :: "env \<Rightarrow> rawEventInfo \<Rightarrow> Binder \<Rightarrow> error + Binder" where
  "on env info st =
     (case prettifyEventParameter env info of
        Inl e \<Rightarrow> Inl e
      | Inr w \<Rightarrow>
          (let st1 = addEventListenerOnTarget env (w_name w) (w_target w) (w_id w) st
           in Inr (st1\<lparr>buses := (buses st1)
                        (w_target w :=
                           bus_on (w_id w) (w_name w) (w_fn w) (w_stage w)
                             (buses st1 (w_target w)))\<rparr>)))"

definition off :: "env \<Rightarrow> rawEventInfo \<Rightarrow> Binder \<Rightarrow> error + Binder" where
  "off env info st =
     (case prettifyEventParameter env info of
        Inl e \<Rightarrow> Inl e
      | Inr w \<Rightarrow>
          (let st1 = st\<lparr>buses := (buses st)
                        (w_target w :=
                           bus_off (w_id w) (w_name w) (w_fn w) (w_stage w)
                             (buses st (w_target w)))\<rparr>
           in removeEventListenerOnTargetWhenIsUseless env (w_name w) (w_target w) st1))"

definition once :: "env \<Rightarrow> rawEventInfo \<Rightarrow> Binder \<Rightarrow> error + Binder" where
  "once env info st =
     (case prettifyEventParameter env info of
        Inl e \<Rightarrow> Inl e
      | Inr w \<Rightarrow>
          Inr (st\<lparr>buses := (buses st)
                    (w_target w :=
                       bus_once (w_id w) (w_name w) (w_fn w) (w_stage w)
                         (buses st (w_target w)))\<rparr>))"

definition bindEventOnPenetrateNode :: "node \<Rightarrow> bool \<Rightarrow> Binder \<Rightarrow> Binder" where
  "bindEventOnPenetrateNode node remove st =
     perform
       (map (\<lambda>(nm, fn). if remove then RemoveEvent node nm fn else AddEvent node nm fn)
          (bindedEventInfo st VideoDom)) st"

definition bindEventOnVideo :: "node \<Rightarrow> bool \<Rightarrow> Binder \<Rightarrow> Binder" where
  "bindEventOnVideo node remove st =
     perform
       (map (\<lambda>(nm, fn). if remove then RemoveEvent node nm fn else AddEvent node nm fn)
          (bindedEventInfo st VideoDom @ bindedEventInfo st Video)) st"

definition migrateKernelEvent :: "kernel_ref \<Rightarrow> kernel_ref \<Rightarrow> Binder \<Rightarrow> Binder" where
  "migrateKernelEvent oldKernel newKernel st =
     perform
       (concat (map (\<lambda>(nm, fn). [KernelOff oldKernel nm fn, KernelOn newKernel nm fn])
                  (bindedEventInfo st Kernel))) st"

text \<open>One round of the \<open>forEach\<close> of \<open>destroy\<close>. \<open>this.dispatcher.kernel.off\<close> is read once
  per recorded pair, so an absent kernel raises only when a pair is recorded. The two
  assignments that end the round name \<open>kernel\<close>, whatever the target of the round.\<close>

definition destroy_each :: "Binder \<Rightarrow> BinderTarget \<Rightarrow> error + Binder" where
  "destroy_each st target =
     (case
        (if target = Kernel then
           (if bindedEventInfo st Kernel = [] then Inr st
            else
              (case kernel st of
                 None \<Rightarrow> Inl TypeError
               | Some k \<Rightarrow>
                   Inr (perform (map (\<lambda>(nm, fn). KernelOff k nm fn) (bindedEventInfo st Kernel))
                          st)))
         else
           (let targetDom = getTargetDom st target
            in Inr (perform
                      (concat
                         (map (\<lambda>(nm, fn).
                                 RemoveEvent targetDom nm fn
                                 # (if target = VideoDom
                                    then map (\<lambda>node. RemoveEvent node nm fn)
                                           (dom_videoExtendedNodes st)
                                    else []))
                            (bindedEventInfo st target))) st)))
      of
        Inl e \<Rightarrow> Inl e
      | Inr st1 \<Rightarrow>
          Inr (st1\<lparr>bindedEventInfo := (bindedEventInfo st1)(Kernel := []),
                   bindedEventNames := (bindedEventNames st1)(Kernel := [])\<rparr>))"

fun destroy_loop :: "BinderTarget list \<Rightarrow> Binder \<Rightarrow> error + Binder" where
  "destroy_loop [] st = Inr st"
| "destroy_loop (target # rest) st =
     (case destroy_each st target of Inl e \<Rightarrow> Inl e | Inr st1 \<Rightarrow> destroy_loop rest st1)"

definition destroy :: "Binder \<Rightarrow> error + Binder" where
  "destroy st = destroy_loop kinds st"

section \<open>Histories\<close>

text \<open>Everything that can happen to a Binder: a call of one of its public methods, a
  physical source calling one of the native callbacks, and the host replacing its kernel
  or its set of overlay nodes.\<close>

datatype operation =
    On rawEventInfo
  | Off rawEventInfo
  | Once rawEventInfo
  | Emit emitInfo
  | EmitSync emitInfo
  | Trigger emitInfo
  | TriggerSync emitInfo
  | AddPendingEvent BinderTarget string string
  | ApplyPendingEvents BinderTarget
  | BindEventOnPenetrateNode node bool
  | BindEventOnVideo node bool
  | ListenOnMouseMoveEvent node
  | MigrateKernelEvent kernel_ref kernel_ref
  | Destroy
  | NativeEvent callback mouse_event
  | HostSetKernel "kernel_ref option"
  | HostSetExtendedNodes "node list"

definition dropResult :: "error + Binder \<times> call_result \<Rightarrow> error + Binder" where
  "dropResult r = (case r of Inl e \<Rightarrow> Inl e | Inr (st, _) \<Rightarrow> Inr st)"

fun step :: "env \<Rightarrow> operation \<Rightarrow> Binder \<Rightarrow> error + Binder" where
  "step env (On info) st = on env info st"
| "step env (Off info) st = off env info st"
| "step env (Once info) st = once env info st"
| "step env (Emit info) st = dropResult (emit env info st)"
| "step env (EmitSync info) st = dropResult (emitSync env info st)"
| "step env (Trigger info) st = dropResult (trigger env info st)"
| "step env (TriggerSync info) st = dropResult (triggerSync env info st)"
| "step env (AddPendingEvent target nm i) st = Inr (addPendingEvent target nm i st)"
| "step env (ApplyPendingEvents target) st = Inr (applyPendingEvents env target st)"
| "step env (BindEventOnPenetrateNode node remove) st =
     Inr (bindEventOnPenetrateNode node remove st)"
| "step env (BindEventOnVideo node remove) st = Inr (bindEventOnVideo node remove st)"
| "step env (ListenOnMouseMoveEvent node) st = Inr (listenOnMouseMoveEvent env node st)"
| "step env (MigrateKernelEvent oldKernel newKernel) st =
     Inr (migrateKernelEvent oldKernel newKernel st)"
| "step env Destroy st = destroy st"
| "step env (NativeEvent cb ev) st = dropResult (runNativeFn env cb ev st)"
| "step env (HostSetKernel k) st = Inr (st\<lparr>kernel := k\<rparr>)"
| "step env (HostSetExtendedNodes ns) st = Inr (st\<lparr>dom_videoExtendedNodes := ns\<rparr>)"

text \<open>A history stops at the first exception.\<close>

fun run :: "env \<Rightarrow> operation list \<Rightarrow> Binder \<Rightarrow> error + Binder" where
  "run env [] st = Inr st"
| "run env (x # xs) st =
     (case step env x st of Inl e \<Rightarrow> Inl e | Inr st1 \<Rightarrow> run env xs st1)"

text \<open>The invariant of the NativeBinding of one target: the bound names are the names of
  the recorded pairs, in the same order, and no name stands twice.\<close>

definition bindingConsistent :: "Binder \<Rightarrow> BinderTarget \<Rightarrow> bool" where
  "bindingConsistent st target =
     (map fst (bindedEventInfo st target) = bindedEventNames st target
      \<and> distinct (bindedEventNames st target))"

definition bindingInvariant :: "Binder \<Rightarrow> bool" where
  "bindingInvariant st = list_all (bindingConsistent st) kinds"

text \<open>The native attach calls of an effect log that carry a callback built for a given
  target and name, and the native detach calls for a name.\<close>

fun callbackFor :: "BinderTarget \<Rightarrow> string \<Rightarrow> callback \<Rightarrow> bool" where
  "callbackFor target nm (Closure _ (TriggerSyncFn t n _)) = (t = target \<and> n = nm)"
| "callbackFor target nm (Closure _ (TriggerFn t n _)) = (t = target \<and> n = nm)"
| "callbackFor target nm (Closure _ (MouseMoveFn n)) = (target = VideoDom \<and> n = nm)"

fun isAttach :: "effect \<Rightarrow> bool" where
  "isAttach (AddEvent _ _ _) = True"
| "isAttach (KernelOn _ _ _) = True"
| "isAttach _ = False"

fun isDetach :: "effect \<Rightarrow> bool" where
  "isDetach (RemoveEvent _ _ _) = True"
| "isDetach (KernelOff _ _ _) = True"
| "isDetach _ = False"

fun isFanOut :: "effect \<Rightarrow> bool" where
  "isFanOut (BusEmit _ _) = True"
| "isFanOut (BusEmitSync _ _) = True"
| "isFanOut (BusTrigger _ _) = True"
| "isFanOut (BusTriggerSync _ _) = True"
| "isFanOut _ = False"

text \<open>The native calls that attach the callback \<open>fn\<close> for a name to the physical source
  of a target, and those that detach it.\<close>

definition attachCalls :: "Binder \<Rightarrow> BinderTarget \<Rightarrow> string \<Rightarrow> callback \<Rightarrow> effect list" where
  "attachCalls st target nm fn =
     (if target = Kernel then (case kernel st of None \<Rightarrow> [] | Some k \<Rightarrow> [KernelOn k nm fn])
      else if target = VideoDom then
        map (\<lambda>node. AddEvent node nm fn) (dom_videoExtendedNodes st)
        @ [AddEvent (getTargetDom st target) nm fn]
      else [AddEvent (getTargetDom st target) nm fn])"

definition detachCalls :: "Binder \<Rightarrow> BinderTarget \<Rightarrow> string \<Rightarrow> callback \<Rightarrow> effect list" where
  "detachCalls st target nm fn =
     (if target = Kernel then (case kernel st of None \<Rightarrow> [] | Some k \<Rightarrow> [KernelOff k nm fn])
      else if target = VideoDom then
        RemoveEvent (getTargetDom st target) nm fn
        # map (\<lambda>node. RemoveEvent node nm fn) (dom_videoExtendedNodes st)
      else [RemoveEvent (getTargetDom st target) nm fn])"

text \<open>The callback that \<open>addEventListenerOnTarget\<close> builds for a target and a name.\<close>

definition nativeFnOf :: "BinderTarget \<Rightarrow> string \<Rightarrow> native_fn" where
  "nativeFnOf target nm =
     (if target = Kernel then TriggerSyncFn target nm ''kernel''
      else if target = Video then TriggerFn target nm (targetName target)
      else TriggerSyncFn target nm (targetName target))"

section \<open>A sample configuration\<close>

text \<open>
  Evaluation at concrete inputs needs values for the imported tables. The lists below are
  samples, not the tables of \<open>const/event\<close>; \<open>sample_camelCase\<close> is lodash's \<open>camelCase\<close>
  at the argument \<open>Play\<close> and the identity elsewhere. The host has kernel 7, container
  node 1, wrapper node 2, video element 3 and one overlay node 4; nodes 3 and 4 lie inside
  the video region.
\<close>

definition sample_camelCase :: "string \<Rightarrow> string" where
  "sample_camelCase s = (if s = ''Play'' then ''play'' else s)"

definition sample_env :: env where
  "sample_env =
     \<lparr>videoEvents = [''play'', ''pause''],
      kernelEvents = [''heartbeat'', ''error''],
      domEvents = [''click'', ''mouseenter'', ''mouseleave''],
      esFullscreenEvents = [''fullscreenchange''],
      mustListenVideoDomEvents = [''mouseenter'', ''mouseleave''],
      isMustListenVideoDomEvent = (\<lambda>n. n = ''mouseenter'' \<or> n = ''mouseleave''),
      camelCase = sample_camelCase,
      isNodeInsideVideo = (\<lambda>n. n = Some 3 \<or> n = Some 4)\<rparr>"

definition sample_new :: Binder where
  "sample_new = Binder_new (Some 7) 1 2 3 [4]"

definition sample_new_without_kernel :: Binder where
  "sample_new_without_kernel = Binder_new None 1 2 3 [4]"

definition sample_on :: "string \<Rightarrow> string \<Rightarrow> BinderTarget option \<Rightarrow> rawEventInfo" where
  "sample_on i nm target =
     \<lparr>raw_fn = JFunction 0, raw_id = i, raw_name = nm, raw_stage = None, raw_target = target\<rparr>"

definition sample_emit :: "js_value \<Rightarrow> js_value \<Rightarrow> emitInfo" where
  "sample_emit i nm = \<lparr>e_id = i, e_name = nm, e_stage = None, e_target = None\<rparr>"

text \<open>What a history leaves behind, \<open>None\<close> when it ended in an exception.\<close>

definition effectsOf :: "error + Binder \<Rightarrow> effect list option" where
  "effectsOf r = (case r of Inl _ \<Rightarrow> None | Inr st \<Rightarrow> Some (effects st))"

definition boundNamesOf :: "error + Binder \<Rightarrow> BinderTarget \<Rightarrow> string list option" where
  "boundNamesOf r target = (case r of Inl _ \<Rightarrow> None | Inr st \<Rightarrow> Some (bindedEventNames st target))"

definition boundPairsOf ::
  "error + Binder \<Rightarrow> BinderTarget \<Rightarrow> (string \<times> callback) list option" where
  "boundPairsOf r target = (case r of Inl _ \<Rightarrow> None | Inr st \<Rightarrow> Some (bindedEventInfo st target))"

definition subscribersOf ::
  "error + Binder \<Rightarrow> BinderTarget \<Rightarrow> string \<Rightarrow> subscription list option" where
  "subscribersOf r target nm =
     (case r of Inl _ \<Rightarrow> None | Inr st \<Rightarrow> Some (bus_subscribers nm (buses st target)))"

definition sample_mouse :: "string \<Rightarrow> node option \<Rightarrow> node option \<Rightarrow> mouse_event" where
  "sample_mouse ty cur to =
     \<lparr>toElement = None, currentTarget = cur, relatedTarget = to, ev_type = ty\<rparr>"

text \<open>The sample Binder after the pointer has entered the video region.\<close>

definition sample_inside :: Binder where
  "sample_inside =
     perform [BusTriggerSync VideoDom ''mouseenter''] (sample_new\<lparr>dom_mouseInVideo := True\<rparr>)"

text \<open>Two subscriptions on \<open>kernel\<close> made before the kernel exists, and the same after the
  host has created kernel 7.\<close>

definition sample_waiting :: "error + Binder" where
  "sample_waiting =
     run sample_env
       [On (sample_on ''p1'' ''mediaInfo'' (Some Kernel)),
        On (sample_on ''p2'' ''heartbeat'' (Some Kernel))]
       sample_new_without_kernel"

definition sample_waiting_with_kernel :: "error + Binder" where
  "sample_waiting_with_kernel =
     run sample_env
       [On (sample_on ''p1'' ''mediaInfo'' (Some Kernel)),
        On (sample_on ''p2'' ''heartbeat'' (Some Kernel)),
        HostSetKernel (Some 7)]
       sample_new_without_kernel"

text \<open>An operation on the state that a history has reached.\<close>

definition after :: "error + Binder \<Rightarrow> (Binder \<Rightarrow> Binder) \<Rightarrow> error + Binder" where
  "after r f = (case r of Inl e \<Rightarrow> Inl e | Inr st \<Rightarrow> Inr (f st))"

definition pendingOf :: "error + Binder \<Rightarrow> BinderTarget \<Rightarrow> (string \<times> string) list option" where
  "pendingOf r target = (case r of Inl _ \<Rightarrow> None | Inr st \<Rightarrow> Some (pendingEventsInfo st target))"

text \<open>When \<open>addEventListenerOnTarget\<close> attaches: the target needs handling, the name is not
  bound for it yet and, for \<open>kernel\<close>, the kernel exists.\<close>

definition attachable :: "env \<Rightarrow> Binder \<Rightarrow> BinderTarget \<Rightarrow> string \<Rightarrow> bool" where
  "attachable env st target nm =
     (isEventNeedToBeHandled env target nm \<and> nm \<notin> set (bindedEventNames st target)
      \<and> (target = Kernel \<longrightarrow> kernel st \<noteq> None))"

text \<open>The native listener of a name is useless once the Bus of the target is empty.\<close>

definition useless :: "env \<Rightarrow> Binder \<Rightarrow> BinderTarget \<Rightarrow> string \<Rightarrow> bool" where
  "useless env st target nm =
     (isEventNeedToBeHandled env target nm \<and> nm \<in> set (bindedEventNames st target)
      \<and> \<not> bus_hasEvents (buses st target))"

text \<open>A call of \<open>on\<close> with a callable handler that resolves to a given target and name.\<close>

definition resolvesTo :: "env \<Rightarrow> rawEventInfo \<Rightarrow> BinderTarget \<Rightarrow> string \<Rightarrow> bool" where
  "resolvesTo env info target nm =
     (isFunction (raw_fn info)
      \<and> ai_name (getEventInfo env (raw_name info) (raw_target info) (raw_stage info)) = nm
      \<and> ai_target (getEventInfo env (raw_name info) (raw_target info) (raw_stage info)) = target)"

text \<open>The state that a history has reached; a new Binder of an empty host when it raised.\<close>

definition stateOf :: "error + Binder \<Rightarrow> Binder" where
  "stateOf r = (case r of Inl _ \<Rightarrow> Binder_new None 0 0 0 [] | Inr st \<Rightarrow> st)"

text \<open>Three subscribers of \<open>click\<close> on \<open>container\<close>, the third by the legacy name.\<close>

definition sample_clicks :: "rawEventInfo list" where
  "sample_clicks =
     [sample_on ''p1'' ''click'' (Some Container), sample_on ''p2'' ''click'' (Some Container),
      sample_on ''p3'' ''c_click'' None]"

text \<open>The sample Binder with one subscriber of \<open>mediaInfo\<close> on \<open>kernel\<close>.\<close>

definition sample_subscribed :: Binder where
  "sample_subscribed =
     stateOf (run sample_env [On (sample_on ''p1'' ''mediaInfo'' (Some Kernel))] sample_new)"

section \<open>Name and target resolution: properties\<close>

lemma getEventTargetByOldLogic_c_play [simp]:
  "getEventTargetByOldLogic ''c_play'' = Some (''play'', Container)"
  by (simp add: getEventTargetByOldLogic_def targetKeyReg_matches_def)

lemma getEventTargetByOldLogic_error [simp]:
  "getEventTargetByOldLogic ''error'' = Some (''error'', Kernel)"
  by (simp add: getEventTargetByOldLogic_def targetKeyReg_matches_def)

lemma getEventTargetByOldLogic_beforePlay [simp]:
  "getEventTargetByOldLogic ''beforePlay'' = None"
  by (simp add: getEventTargetByOldLogic_def targetKeyReg_matches_def)

lemma secondaryEventReg_match_play [simp]: "secondaryEventReg_match ''play'' = None"
  by (simp add: secondaryEventReg_match_def)

lemma secondaryEventReg_match_error [simp]: "secondaryEventReg_match ''error'' = None"
  by (simp add: secondaryEventReg_match_def)

lemma secondaryEventReg_match_beforePlay [simp]:
  "secondaryEventReg_match ''beforePlay'' = Some (StageBefore, ''Play'')"
  by (simp add: secondaryEventReg_match_def)

text \<open>
  C7. Resolution is a function of the name, the declared target and the declared stage
  alone: \<open>getEventInfo\<close> reads no state and returns none. At the three names of the
  specification it yields: for \<open>c_play\<close> the name \<open>play\<close> on target \<open>container\<close> in stage
  \<open>main\<close>; for \<open>beforePlay\<close> the name \<open>play\<close> in stage \<open>before\<close> on the target inferred for
  \<open>play\<close> (given that \<open>camelCase\<close> turns \<open>Play\<close> into \<open>play\<close>); for \<open>error\<close> the name \<open>error\<close>
  on target \<open>kernel\<close> in stage \<open>main\<close>.
\<close>

theorem getEventInfo_examples:
  "getEventInfo env ''c_play'' None None
     = \<lparr>ai_name = ''play'', ai_stage = StageMain, ai_target = Container\<rparr>
   \<and> (camelCase env ''Play'' = ''play'' \<longrightarrow>
        getEventInfo env ''beforePlay'' None None
          = \<lparr>ai_name = ''play'', ai_stage = StageBefore,
              ai_target = getEventTargetByEventName env ''play''\<rparr>)
   \<and> getEventInfo env ''error'' None None
     = \<lparr>ai_name = ''error'', ai_stage = StageMain, ai_target = Kernel\<rparr>"
  by (simp add: getEventInfo_def getEventStage_def)

theorem getEventInfo_examples_witness:
  "camelCase sample_env ''Play'' = ''play''
   \<and> getEventInfo sample_env ''c_play'' None None
     = \<lparr>ai_name = ''play'', ai_stage = StageMain, ai_target = Container\<rparr>
   \<and> getEventInfo sample_env ''beforePlay'' None None
     = \<lparr>ai_name = ''play'', ai_stage = StageBefore, ai_target = Video\<rparr>
   \<and> getEventInfo sample_env ''error'' None None
     = \<lparr>ai_name = ''error'', ai_stage = StageMain, ai_target = Kernel\<rparr>"
proof -
  have c: "camelCase sample_env ''Play'' = ''play''"
    by (simp add: sample_env_def sample_camelCase_def)
  have t: "getEventTargetByEventName sample_env ''play'' = Video"
    by (simp add: getEventTargetByEventName_def sample_env_def)
  from getEventInfo_examples [of sample_env] c t show ?thesis by simp
qed

text \<open>
  C8. A stage that the caller declares is the stage of the result, whatever prefix the
  name has. A target that the caller declares is never replaced by the target that the
  membership tables give: the result has the declared target, unless the legacy rule
  (a prefix \<open>c_\<close> or \<open>w_\<close>, or the name \<open>error\<close>) applies to the name, which then decides.
  Without a declared target the legacy rule decides whenever it applies.
\<close>

theorem getEventInfo_declared_wins:
  "(stage = Some s \<longrightarrow> ai_stage (getEventInfo env nm target stage) = s)
   \<and> (target = Some t \<longrightarrow>
        ai_target (getEventInfo env nm target stage)
          = (case getEventTargetByOldLogic nm of Some (n', t') \<Rightarrow> t' | None \<Rightarrow> t))
   \<and> (target = None \<and> getEventTargetByOldLogic nm = Some (n', t') \<longrightarrow>
        ai_target (getEventInfo env nm target stage) = t')"
  by (auto simp: getEventInfo_def Let_def split: option.splits prod.splits)

theorem getEventInfo_declared_wins_witness:
  "ai_stage (getEventInfo sample_env ''beforePlay'' (Some Wrapper) (Some StageAfter)) = StageAfter
   \<and> ai_target (getEventInfo sample_env ''beforePlay'' (Some Wrapper) (Some StageAfter)) = Wrapper
   \<and> getEventTargetByEventName sample_env ''play'' = Video
   \<and> ai_target (getEventInfo sample_env ''c_play'' None None) = Container"
proof -
  have t: "getEventTargetByEventName sample_env ''play'' = Video"
    by (simp add: getEventTargetByEventName_def sample_env_def)
  from getEventInfo_declared_wins
         [of "Some StageAfter" StageAfter sample_env "''beforePlay''" "Some Wrapper" Wrapper]
       getEventInfo_declared_wins
         [of None StageMain sample_env "''c_play''" None Wrapper "''play''" Container]
       t
  show ?thesis by simp
qed

section \<open>Emission: properties\<close>

lemma runnable_rejected:
  "\<not> cond info \<Longrightarrow> runnable cond backup method info st = Inr (st, Returned backup)"
  by (simp add: runnable_def)

lemma isEventEmitalbe_iff:
  "isEventEmitalbe info \<longleftrightarrow>
     (\<exists>nm i. e_name info = JString nm \<and> nm \<noteq> [] \<and> \<not> secondaryEventReg_test nm
             \<and> e_id info = JString i \<and> i \<noteq> [])"
  by (cases "e_name info"; cases "e_id info") (auto simp: isEventEmitalbe_def)

lemma fanOut_emitable:
  assumes "isEventEmitalbe info" and "e_name info = JString nm"
  shows "runnable isEventEmitalbe backup (fanOut call env) info st
           = Inr (perform [call (ai_target (getEventInfo env nm (e_target info) (e_stage info))) nm]
                    st, BusResult)"
  using assms by (simp add: runnable_def fanOut_def)

text \<open>
  C9. When the name of an emission is missing, is no string or starts with a stage
  prefix, or its id is missing or is no string, then each of the four methods returns
  without an exception and leaves the state, and with it the log of Bus calls, as it was:
  \<open>emit\<close> and \<open>trigger\<close> return \<open>undefined\<close>, \<open>emitSync\<close> and \<open>triggerSync\<close> return \<open>false\<close>.
\<close>

theorem emission_rejected:
  assumes "e_name info = JUndefined \<or> \<not> isString (e_name info)
           \<or> (\<exists>nm. e_name info = JString nm \<and> secondaryEventReg_test nm)
           \<or> e_id info = JUndefined \<or> \<not> isString (e_id info)"
  shows "emit env info st = Inr (st, Returned JUndefined)
         \<and> trigger env info st = Inr (st, Returned JUndefined)
         \<and> emitSync env info st = Inr (st, Returned (JBool False))
         \<and> triggerSync env info st = Inr (st, Returned (JBool False))"
proof -
  from assms have "\<not> isEventEmitalbe info"
    by (auto simp: isEventEmitalbe_iff)
  then show ?thesis
    by (simp add: emit_def trigger_def emitSync_def triggerSync_def runnable_rejected)
qed

theorem emission_rejected_witness:
  "secondaryEventReg_test ''beforePlay''
   \<and> emit sample_env (sample_emit (JString ''p1'') (JString ''beforePlay'')) sample_new
       = Inr (sample_new, Returned JUndefined)
   \<and> emitSync sample_env (sample_emit (JString ''p1'') (JString ''beforePlay'')) sample_new
       = Inr (sample_new, Returned (JBool False))
   \<and> trigger sample_env (sample_emit (JNumber 5) (JString ''play'')) sample_new
       = Inr (sample_new, Returned JUndefined)
   \<and> triggerSync sample_env (sample_emit JUndefined (JString ''play'')) sample_new
       = Inr (sample_new, Returned (JBool False))"
proof -
  have p: "secondaryEventReg_test ''beforePlay''"
    by (simp add: secondaryEventReg_test_def)
  have a: "e_name (sample_emit (JString ''p1'') (JString ''beforePlay'')) = JString ''beforePlay''"
    by (simp add: sample_emit_def)
  have b: "\<not> isString (e_id (sample_emit (JNumber 5) (JString ''play'')))"
    by (simp add: sample_emit_def)
  have c: "e_id (sample_emit JUndefined (JString ''play'')) = JUndefined"
    by (simp add: sample_emit_def)
  from emission_rejected
         [of "sample_emit (JString ''p1'') (JString ''beforePlay'')" sample_env sample_new]
       emission_rejected [of "sample_emit (JNumber 5) (JString ''play'')" sample_env sample_new]
       emission_rejected [of "sample_emit JUndefined (JString ''play'')" sample_env sample_new]
       p a b c
  show ?thesis by blast
qed

text \<open>
  C10. An emission that passes the check reaches the Bus of the resolved target, the one
  that \<open>getEventInfo\<close> computes from the name, the declared target and the declared stage,
  and the name it hands to that Bus is the name as the caller wrote it. For a name with
  the legacy prefix \<open>c_\<close> or \<open>w_\<close> this is the Bus of \<open>container\<close> or \<open>wrapper\<close>, and the
  name handed over differs from the resolved name, which has lost the prefix.
\<close>

theorem emission_keeps_raw_name:
  assumes "isEventEmitalbe info" and "e_name info = JString nm"
  shows "emit env info st
           = Inr (perform [BusEmit (ai_target (getEventInfo env nm (e_target info) (e_stage info))) nm]
                    st, BusResult)
         \<and> emitSync env info st
           = Inr (perform [BusEmitSync (ai_target (getEventInfo env nm (e_target info) (e_stage info))) nm]
                    st, BusResult)
         \<and> trigger env info st
           = Inr (perform [BusTrigger (ai_target (getEventInfo env nm (e_target info) (e_stage info))) nm]
                    st, BusResult)
         \<and> triggerSync env info st
           = Inr (perform [BusTriggerSync (ai_target (getEventInfo env nm (e_target info) (e_stage info))) nm]
                    st, BusResult)
         \<and> (targetKeyReg_matches nm \<longrightarrow>
              ai_target (getEventInfo env nm (e_target info) (e_stage info))
                = (if take 1 nm = ''c'' then Container else Wrapper)
              \<and> (secondaryEventReg_match (drop 2 nm) = None \<longrightarrow>
                   ai_name (getEventInfo env nm (e_target info) (e_stage info)) = drop 2 nm
                   \<and> drop 2 nm \<noteq> nm))"
proof -
  have legacy: "ai_target (getEventInfo env nm (e_target info) (e_stage info))
                  = (if take 1 nm = ''c'' then Container else Wrapper)
                \<and> (secondaryEventReg_match (drop 2 nm) = None \<longrightarrow>
                     ai_name (getEventInfo env nm (e_target info) (e_stage info)) = drop 2 nm
                     \<and> drop 2 nm \<noteq> nm)"
    if m: "targetKeyReg_matches nm"
  proof -
    from m have old: "getEventTargetByOldLogic nm
                        = Some (drop 2 nm, if take 1 nm = ''c'' then Container else Wrapper)"
      by (simp add: getEventTargetByOldLogic_def)
    from m have "nm \<noteq> []"
      by (auto simp: targetKeyReg_matches_def)
    then have "length (drop 2 nm) \<noteq> length nm"
      by (cases nm) auto
    then have "drop 2 nm \<noteq> nm"
      by metis
    with old show ?thesis
      by (auto simp: getEventInfo_def getEventStage_def Let_def split: prod.splits)
  qed
  from assms legacy show ?thesis
    by (simp add: emit_def emitSync_def trigger_def triggerSync_def fanOut_emitable)
qed

theorem emission_keeps_raw_name_witness:
  "isEventEmitalbe (sample_emit (JString ''p1'') (JString ''c_play''))
   \<and> targetKeyReg_matches ''c_play''
   \<and> ai_name (getEventInfo sample_env ''c_play'' None None) = ''play''
   \<and> emit sample_env (sample_emit (JString ''p1'') (JString ''c_play'')) sample_new
       = Inr (perform [BusEmit Container ''c_play''] sample_new, BusResult)
   \<and> triggerSync sample_env (sample_emit (JString ''p1'') (JString ''c_play'')) sample_new
       = Inr (perform [BusTriggerSync Container ''c_play''] sample_new, BusResult)"
proof -
  have a: "isEventEmitalbe (sample_emit (JString ''p1'') (JString ''c_play''))"
    by (simp add: isEventEmitalbe_def sample_emit_def secondaryEventReg_test_def
        secondaryEventReg_match_def)
  have b: "e_name (sample_emit (JString ''p1'') (JString ''c_play'')) = JString ''c_play''"
    by (simp add: sample_emit_def)
  have c: "targetKeyReg_matches ''c_play''"
    by (simp add: targetKeyReg_matches_def)
  have d: "e_target (sample_emit (JString ''p1'') (JString ''c_play'')) = None"
          "e_stage (sample_emit (JString ''p1'') (JString ''c_play'')) = None"
    by (simp_all add: sample_emit_def)
  from emission_keeps_raw_name [OF a b, of sample_env sample_new] a c
  show ?thesis by (simp add: d)
qed

section \<open>The containment listener: properties\<close>

lemma triggerSync_vm:
  assumes "nm \<noteq> []" and "\<not> secondaryEventReg_test nm"
  shows "triggerSync env
           \<lparr>e_id = JString ''_vm'', e_name = JString nm, e_stage = None, e_target = Some VideoDom\<rparr> st
         = Inr (perform [BusTriggerSync (ai_target (getEventInfo env nm (Some VideoDom) None)) nm] st,
                BusResult)"
  using assms
  by (simp add: triggerSync_def runnable_def fanOut_def isEventEmitalbe_def)

text \<open>
  C6. The listener built for a name that passes the emission check is a two-state
  machine over \<open>dom.mouseInVideo\<close>. Outside the video, a \<open>mouseenter\<close> whose current
  target lies inside the video region sets the flag and hands exactly one \<open>triggerSync\<close>
  to the Bus. Inside the video, a \<open>mouseleave\<close> whose destination (\<open>toElement\<close>, else
  \<open>relatedTarget\<close>) lies outside the region clears the flag and hands exactly one
  \<open>triggerSync\<close> to the Bus. In every other case the state is unchanged, no Bus call
  included. The Bus is that of \<open>video-dom\<close> unless the legacy rule applies to the name.
\<close>

theorem containment_state_machine:
  assumes "nm \<noteq> []" and "\<not> secondaryEventReg_test nm"
  shows "(\<not> dom_mouseInVideo st \<and> ev_type ev = ''mouseenter''
            \<and> isNodeInsideVideo env (currentTarget ev) \<longrightarrow>
          mouseMoveFn env nm ev st
            = Inr (perform [BusTriggerSync (ai_target (getEventInfo env nm (Some VideoDom) None)) nm]
                     (st\<lparr>dom_mouseInVideo := True\<rparr>), BusResult))
         \<and> (dom_mouseInVideo st \<and> ev_type ev = ''mouseleave''
              \<and> \<not> isNodeInsideVideo env
                    (case toElement ev of Some n \<Rightarrow> Some n | None \<Rightarrow> relatedTarget ev) \<longrightarrow>
            mouseMoveFn env nm ev st
              = Inr (perform [BusTriggerSync (ai_target (getEventInfo env nm (Some VideoDom) None)) nm]
                       (st\<lparr>dom_mouseInVideo := False\<rparr>), BusResult))
         \<and> (\<not> (\<not> dom_mouseInVideo st \<and> ev_type ev = ''mouseenter''
                  \<and> isNodeInsideVideo env (currentTarget ev))
              \<and> \<not> (dom_mouseInVideo st \<and> ev_type ev = ''mouseleave''
                      \<and> \<not> isNodeInsideVideo env
                            (case toElement ev of Some n \<Rightarrow> Some n | None \<Rightarrow> relatedTarget ev)) \<longrightarrow>
            mouseMoveFn env nm ev st = Inr (st, Returned JUndefined))
         \<and> (getEventTargetByOldLogic nm = None \<longrightarrow>
              ai_target (getEventInfo env nm (Some VideoDom) None) = VideoDom)"
proof -
  have "getEventTargetByOldLogic nm = None \<Longrightarrow>
          ai_target (getEventInfo env nm (Some VideoDom) None) = VideoDom"
    by (simp add: getEventInfo_def Let_def split: prod.splits)
  then show ?thesis
    using assms by (auto simp: mouseMoveFn_def Let_def triggerSync_vm)
qed

theorem containment_state_machine_witness:
  "\<not> dom_mouseInVideo sample_new
   \<and> mouseMoveFn sample_env ''mouseenter'' (sample_mouse ''mouseenter'' (Some 3) None) sample_new
       = Inr (sample_inside, BusResult)
   \<and> dom_mouseInVideo sample_inside
   \<and> mouseMoveFn sample_env ''mouseleave'' (sample_mouse ''mouseleave'' (Some 3) (Some 4))
         sample_inside
       = Inr (sample_inside, Returned JUndefined)
   \<and> mouseMoveFn sample_env ''mouseleave'' (sample_mouse ''mouseleave'' (Some 3) (Some 9))
         sample_inside
       = Inr (perform [BusTriggerSync VideoDom ''mouseleave'']
                (sample_inside\<lparr>dom_mouseInVideo := False\<rparr>), BusResult)"
proof -
  have n: "''mouseenter'' \<noteq> []" "\<not> secondaryEventReg_test ''mouseenter''"
          "''mouseleave'' \<noteq> []" "\<not> secondaryEventReg_test ''mouseleave''"
    by (simp_all add: secondaryEventReg_test_def secondaryEventReg_match_def)
  have old: "getEventTargetByOldLogic ''mouseenter'' = None"
            "getEventTargetByOldLogic ''mouseleave'' = None"
    by (simp_all add: getEventTargetByOldLogic_def targetKeyReg_matches_def)
  have s0: "\<not> dom_mouseInVideo sample_new"
    by (simp add: sample_new_def Binder_new_def)
  have s1: "dom_mouseInVideo sample_inside"
    by (simp add: sample_inside_def perform_def)
  have ins: "isNodeInsideVideo sample_env (Some 3)" "isNodeInsideVideo sample_env (Some 4)"
            "\<not> isNodeInsideVideo sample_env (Some 9)"
    by (simp_all add: sample_env_def)
  from containment_state_machine
         [OF n(1,2), of sample_new "sample_mouse ''mouseenter'' (Some 3) None" sample_env]
       containment_state_machine
         [OF n(3,4), of sample_inside "sample_mouse ''mouseleave'' (Some 3) (Some 4)" sample_env]
       containment_state_machine
         [OF n(3,4), of sample_inside "sample_mouse ''mouseleave'' (Some 3) (Some 9)" sample_env]
       old s0 s1 ins
  show ?thesis
    by (simp add: sample_mouse_def sample_inside_def)
qed

section \<open>The pending queue: properties\<close>

lemma applyPendingLoop_rev:
  "applyPendingLoop env target xs st
     = foldl (\<lambda>s (nm, i). addEventListenerOnTarget env nm target i s) st (rev xs)"
proof (induction xs arbitrary: st rule: rev_induct)
  case Nil
  show ?case by (subst applyPendingLoop.simps) simp
next
  case (snoc x xs)
  show ?case
    by (subst applyPendingLoop.simps) (simp add: snoc.IH split: prod.splits)
qed

text \<open>
  C3, as the code has it. \<open>applyPendingEvents\<close> empties the pending list of the target
  first, so that an entry pushed during the replay goes to the emptied list of the state
  and not to the copy being replayed; it then replays the copy through
  \<open>addEventListenerOnTarget\<close> from its last entry to its first, that is in the reverse of
  the order in which the entries were enqueued.
\<close>

theorem applyPendingEvents_reverse_order:
  "applyPendingEvents env target st
     = foldl (\<lambda>s (nm, i). addEventListenerOnTarget env nm target i s)
         (st\<lparr>pendingEventsInfo := (pendingEventsInfo st)(target := [])\<rparr>)
         (rev (pendingEventsInfo st target))"
  by (simp add: applyPendingEvents_def Let_def applyPendingLoop_rev)

theorem applyPendingEvents_reverse_order_witness:
  "pendingOf sample_waiting_with_kernel Kernel
     = Some [(''mediaInfo'', ''p1''), (''heartbeat'', ''p2'')]
   \<and> effectsOf (after sample_waiting_with_kernel (applyPendingEvents sample_env Kernel))
     = Some [KernelOn 7 ''heartbeat'' (Closure 0 (TriggerSyncFn Kernel ''heartbeat'' ''kernel'')),
             KernelOn 7 ''mediaInfo'' (Closure 1 (TriggerSyncFn Kernel ''mediaInfo'' ''kernel''))]
   \<and> pendingOf (after sample_waiting_with_kernel (applyPendingEvents sample_env Kernel)) Kernel
     = Some []
   \<and> pendingOf (after sample_waiting (applyPendingEvents sample_env Kernel)) Kernel
     = Some [(''heartbeat'', ''p2''), (''mediaInfo'', ''p1'')]"
proof -
  have "pendingOf sample_waiting_with_kernel Kernel
          = Some [(''mediaInfo'', ''p1''), (''heartbeat'', ''p2'')]
        \<and> effectsOf (after sample_waiting_with_kernel
             (\<lambda>st. foldl (\<lambda>s (nm, i). addEventListenerOnTarget sample_env nm Kernel i s)
                     (st\<lparr>pendingEventsInfo := (pendingEventsInfo st)(Kernel := [])\<rparr>)
                     (rev (pendingEventsInfo st Kernel))))
          = Some [KernelOn 7 ''heartbeat'' (Closure 0 (TriggerSyncFn Kernel ''heartbeat'' ''kernel'')),
                  KernelOn 7 ''mediaInfo'' (Closure 1 (TriggerSyncFn Kernel ''mediaInfo'' ''kernel''))]
        \<and> pendingOf (after sample_waiting_with_kernel
             (\<lambda>st. foldl (\<lambda>s (nm, i). addEventListenerOnTarget sample_env nm Kernel i s)
                     (st\<lparr>pendingEventsInfo := (pendingEventsInfo st)(Kernel := [])\<rparr>)
                     (rev (pendingEventsInfo st Kernel)))) Kernel
          = Some []
        \<and> pendingOf (after sample_waiting
             (\<lambda>st. foldl (\<lambda>s (nm, i). addEventListenerOnTarget sample_env nm Kernel i s)
                     (st\<lparr>pendingEventsInfo := (pendingEventsInfo st)(Kernel := [])\<rparr>)
                     (rev (pendingEventsInfo st Kernel)))) Kernel
          = Some [(''heartbeat'', ''p2''), (''mediaInfo'', ''p1'')]"
    by code_simp
  then show ?thesis
    unfolding applyPendingEvents_reverse_order [of sample_env Kernel, symmetric] .
qed

text \<open>
  C3, as the specification states it, fails: two registrations enqueued as \<open>mediaInfo\<close>,
  then \<open>heartbeat\<close>, are attached as \<open>heartbeat\<close>, then \<open>mediaInfo\<close>, where a first-in
  first-out replay attaches \<open>mediaInfo\<close> first.
\<close>

theorem applyPendingEvents_not_fifo:
  "pendingOf sample_waiting_with_kernel Kernel
     = Some [(''mediaInfo'', ''p1''), (''heartbeat'', ''p2'')]
   \<and> effectsOf (after sample_waiting_with_kernel (applyPendingEvents sample_env Kernel))
     = Some [KernelOn 7 ''heartbeat'' (Closure 0 (TriggerSyncFn Kernel ''heartbeat'' ''kernel'')),
             KernelOn 7 ''mediaInfo'' (Closure 1 (TriggerSyncFn Kernel ''mediaInfo'' ''kernel''))]
   \<and> effectsOf (after sample_waiting_with_kernel (applyPendingEvents_fifo sample_env Kernel))
     = Some [KernelOn 7 ''mediaInfo'' (Closure 0 (TriggerSyncFn Kernel ''mediaInfo'' ''kernel'')),
             KernelOn 7 ''heartbeat'' (Closure 1 (TriggerSyncFn Kernel ''heartbeat'' ''kernel''))]
   \<and> effectsOf (after sample_waiting_with_kernel (applyPendingEvents sample_env Kernel))
     \<noteq> effectsOf (after sample_waiting_with_kernel (applyPendingEvents_fifo sample_env Kernel))"
  by code_simp

section \<open>Destruction and the containment listener at concrete inputs\<close>

text \<open>
  C4 at one input. After \<open>on\<close> for \<open>click\<close> on \<open>container\<close> and \<open>destroy\<close>, the recorded pair
  has been detached from the container node, but the NativeBinding of \<open>container\<close> still
  holds the name and the pair: each round of the loop clears the lists of \<open>kernel\<close>.
\<close>

theorem destroy_keeps_container_binding:
  "effectsOf (run sample_env [On (sample_on ''p1'' ''click'' (Some Container)), Destroy] sample_new)
     = Some [AddEvent 1 ''click'' (Closure 0 (TriggerSyncFn Container ''click'' ''container'')),
             RemoveEvent 1 ''click'' (Closure 0 (TriggerSyncFn Container ''click'' ''container''))]
   \<and> boundNamesOf
       (run sample_env [On (sample_on ''p1'' ''click'' (Some Container)), Destroy] sample_new)
       Container
     = Some [''click'']
   \<and> boundPairsOf
       (run sample_env [On (sample_on ''p1'' ''click'' (Some Container)), Destroy] sample_new)
       Container
     = Some [(''click'', Closure 0 (TriggerSyncFn Container ''click'' ''container''))]"
  by code_simp

text \<open>
  C5 at one input. With \<open>mouseenter\<close> already bound for \<open>video-dom\<close> by a subscription,
  \<open>listenOnMouseMoveEvent\<close> attaches a second native listener for \<open>mouseenter\<close> to the node
  and records nothing for it: the call of \<open>addEvent\<close> stands before the check.
\<close>

theorem listenOnMouseMoveEvent_attaches_again:
  "boundNamesOf (run sample_env [On (sample_on ''p1'' ''mouseenter'' (Some VideoDom))] sample_new)
     VideoDom
     = Some [''mouseenter'']
   \<and> effectsOf
       (run sample_env
          [On (sample_on ''p1'' ''mouseenter'' (Some VideoDom)), ListenOnMouseMoveEvent 3]
          sample_new)
     = Some [AddEvent 4 ''mouseenter'' (Closure 0 (TriggerSyncFn VideoDom ''mouseenter'' ''video-dom'')),
             AddEvent 3 ''mouseenter'' (Closure 0 (TriggerSyncFn VideoDom ''mouseenter'' ''video-dom'')),
             AddEvent 3 ''mouseenter'' (Closure 1 (MouseMoveFn ''mouseenter'')),
             AddEvent 3 ''mouseleave'' (Closure 2 (MouseMoveFn ''mouseleave''))]
   \<and> boundPairsOf
       (run sample_env
          [On (sample_on ''p1'' ''mouseenter'' (Some VideoDom)), ListenOnMouseMoveEvent 3]
          sample_new)
       VideoDom
     = Some [(''mouseenter'', Closure 0 (TriggerSyncFn VideoDom ''mouseenter'' ''video-dom'')),
             (''mouseleave'', Closure 2 (MouseMoveFn ''mouseleave''))]"
  by code_simp

section \<open>The native attachment registry: properties\<close>

lemma bindingInvariant_iff: "bindingInvariant st \<longleftrightarrow> (\<forall>t. bindingConsistent st t)"
proof
  assume a: "bindingInvariant st"
  show "\<forall>t. bindingConsistent st t"
  proof
    fix t
    from a show "bindingConsistent st t"
      by (cases t) (simp_all add: bindingInvariant_def kinds_def)
  qed
next
  assume "\<forall>t. bindingConsistent st t"
  then show "bindingInvariant st"
    by (simp add: bindingInvariant_def kinds_def)
qed

lemma bindingConsistent_cong:
  "bindedEventInfo st' t = bindedEventInfo st t \<Longrightarrow> bindedEventNames st' t = bindedEventNames st t
   \<Longrightarrow> bindingConsistent st' t = bindingConsistent st t"
  by (simp add: bindingConsistent_def)

lemma pushBinding_consistent:
  assumes "bindingConsistent st t" and "nm \<notin> set (bindedEventNames st target)"
  shows "bindingConsistent (pushBinding target nm fn st) t"
  using assms by (auto simp: bindingConsistent_def pushBinding_def)

lemma bindingConsistent_perform [simp]: "bindingConsistent (perform es st) t = bindingConsistent st t"
  by (simp add: bindingConsistent_def perform_def)

lemma bindedEventNames_perform [simp]: "bindedEventNames (perform es st) = bindedEventNames st"
  by (simp add: perform_def)

lemma bindedEventInfo_perform [simp]: "bindedEventInfo (perform es st) = bindedEventInfo st"
  by (simp add: perform_def)



lemma addEventListenerOnTarget_closed_form:
  "addEventListenerOnTarget env nm target i st =
     (if attachable env st target nm then
        pushBinding target nm (Closure (nextClosure st) (nativeFnOf target nm))
          (perform (attachCalls st target nm (Closure (nextClosure st) (nativeFnOf target nm)))
             (st\<lparr>nextClosure := Suc (nextClosure st)\<rparr>))
      else if isEventNeedToBeHandled env target nm \<and> nm \<notin> set (bindedEventNames st target)
      then addPendingEvent target nm i st
      else st)"
proof (cases target)
  case Kernel
  then show ?thesis
    by (cases "kernel st")
       (simp_all add: addEventListenerOnTarget_def attachable_def newClosure_def nativeFnOf_def
          attachCalls_def perform_def)
next
  case Container
  then show ?thesis
    by (simp add: addEventListenerOnTarget_def attachable_def newClosure_def nativeFnOf_def
          attachCalls_def perform_def isEventNeedToBeHandled_def)
next
  case Wrapper
  then show ?thesis
    by (simp add: addEventListenerOnTarget_def attachable_def newClosure_def nativeFnOf_def
          attachCalls_def perform_def isEventNeedToBeHandled_def)
next
  case Video
  then show ?thesis
    by (simp add: addEventListenerOnTarget_def attachable_def newClosure_def nativeFnOf_def
          attachCalls_def perform_def)
next
  case VideoDom
  then show ?thesis
    by (simp add: addEventListenerOnTarget_def attachable_def newClosure_def nativeFnOf_def
          attachCalls_def perform_def getTargetDom_def)
next
  case Plugin
  then show ?thesis
    by (simp add: addEventListenerOnTarget_def attachable_def isEventNeedToBeHandled_def)
next
  case EsFullscreen
  then show ?thesis
    by (simp add: addEventListenerOnTarget_def attachable_def isEventNeedToBeHandled_def)
qed

lemma addEventListenerOnTarget_consistent:
  assumes "bindingConsistent st t"
  shows "bindingConsistent (addEventListenerOnTarget env nm target i st) t"
  using assms
  by (auto simp: addEventListenerOnTarget_closed_form attachable_def bindingConsistent_def
        pushBinding_def perform_def addPendingEvent_def)

lemma addEventListenerOnTarget_effects:
  "effects (addEventListenerOnTarget env nm target i st) =
     effects st @ (if attachable env st target nm
                   then attachCalls st target nm (Closure (nextClosure st) (nativeFnOf target nm))
                   else [])"
  by (simp add: addEventListenerOnTarget_closed_form pushBinding_def perform_def addPendingEvent_def)

lemma addEventListenerOnTarget_not_attachable:
  "\<not> attachable env (addEventListenerOnTarget env nm target i st) target nm"
  by (auto simp: addEventListenerOnTarget_closed_form attachable_def pushBinding_def perform_def
        addPendingEvent_def)

lemma addEventListenerOnTarget_host:
  "kernel (addEventListenerOnTarget env nm target i st) = kernel st"
  "buses (addEventListenerOnTarget env nm target i st) = buses st"
  by (simp_all add: addEventListenerOnTarget_closed_form pushBinding_def perform_def
        addPendingEvent_def)

lemma indexOf_None_iff: "indexOf x xs = None \<longleftrightarrow> x \<notin> set xs"
  by (induction xs) (auto split: option.splits)

lemma indexOf_Some_mem: "indexOf x xs = Some k \<Longrightarrow> x \<in> set xs"
  using indexOf_None_iff [of x xs] by auto

lemma splice1_indexOf: "indexOf x xs = Some k \<Longrightarrow> splice1 k xs = remove1 x xs"
proof (induction xs arbitrary: k)
  case Nil
  then show ?case by simp
next
  case (Cons y ys)
  show ?case
  proof (cases "x = y")
    case True
    with Cons.prems show ?thesis by (simp add: splice1_def)
  next
    case False
    with Cons.prems obtain j where j: "indexOf x ys = Some j" "k = Suc j"
      by (auto split: option.splits)
    from Cons.IH [OF j(1)] j(2) False show ?thesis by (simp add: splice1_def)
  qed
qed

lemma findBinded_indexOf:
  "findBinded nm ps =
     (case indexOf nm (map fst ps) of
        None \<Rightarrow> None
      | Some k \<Rightarrow> Some (k, the (map_of ps nm)))"
  by (induction ps) (auto split: option.splits)

lemma map_of_indexOf:
  "indexOf nm (map fst ps) = Some k \<Longrightarrow> \<exists>fn. map_of ps nm = Some fn"
  by (metis indexOf_None_iff map_of_eq_None_iff not_Some_eq option.distinct(1) set_map)

lemma splice1_pairs:
  assumes "indexOf nm (map fst ps) = Some k" and "distinct (map fst ps)"
    and "map_of ps nm = Some fn"
  shows "splice1 k ps = remove1 (nm, fn) ps"
  using assms
proof (induction ps arbitrary: k)
  case Nil
  then show ?case by simp
next
  case (Cons p ps)
  show ?case
  proof (cases "fst p = nm")
    case True
    with Cons.prems show ?thesis by (cases p) (auto simp: splice1_def)
  next
    case False
    with Cons.prems obtain j where j: "indexOf nm (map fst ps) = Some j" "k = Suc j"
      by (auto split: option.splits)
    from Cons.prems False have "map_of ps nm = Some fn" "distinct (map fst ps)"
      by (auto split: if_splits)
    from Cons.IH [OF j(1) this(2,1)] j(2) False show ?thesis
      by (cases p) (auto simp: splice1_def)
  qed
qed

lemma map_fst_remove1_pair:
  assumes "distinct (map fst ps)" and "map_of ps nm = Some fn"
  shows "map fst (remove1 (nm, fn) ps) = remove1 nm (map fst ps)"
  using assms
proof (induction ps)
  case Nil
  then show ?case by simp
next
  case (Cons p ps)
  then show ?case
    by (cases p) (auto split: if_splits dest: map_of_SomeD)
qed


lemma removeEventListener_closed_form:
  assumes c: "bindingConsistent st target" and k: "target = Kernel \<longrightarrow> kernel st \<noteq> None"
  shows "removeEventListenerOnTargetWhenIsUseless env nm target st =
           Inr (if useless env st target nm then
                  (perform (detachCalls st target nm (the (map_of (bindedEventInfo st target) nm))) st)
                    \<lparr>bindedEventInfo := (bindedEventInfo st)
                       (target := remove1 (nm, the (map_of (bindedEventInfo st target) nm))
                                    (bindedEventInfo st target)),
                     bindedEventNames := (bindedEventNames st)
                       (target := remove1 nm (bindedEventNames st target))\<rparr>
                else st)"
proof (cases "useless env st target nm")
  case False
  then show ?thesis
    by (auto simp: removeEventListenerOnTargetWhenIsUseless_def useless_def
          split: option.splits dest: indexOf_Some_mem)
next
  case True
  then have h: "isEventNeedToBeHandled env target nm" "\<not> bus_hasEvents (buses st target)"
    and "nm \<in> set (bindedEventNames st target)"
    by (simp_all add: useless_def)
  then obtain j where j: "indexOf nm (bindedEventNames st target) = Some j"
    by (cases "indexOf nm (bindedEventNames st target)") (auto simp: indexOf_None_iff)
  from c have m: "map fst (bindedEventInfo st target) = bindedEventNames st target"
    and d: "distinct (map fst (bindedEventInfo st target))"
    by (simp_all add: bindingConsistent_def)
  from j m obtain fn where fn: "map_of (bindedEventInfo st target) nm = Some fn"
    using map_of_indexOf by metis
  from j m fn have f: "findBinded nm (bindedEventInfo st target) = Some (j, fn)"
    by (simp add: findBinded_indexOf)
  from j m d fn have s1: "splice1 j (bindedEventInfo st target)
                            = remove1 (nm, fn) (bindedEventInfo st target)"
    by (simp add: splice1_pairs)
  from j have s2: "splice1 j (bindedEventNames st target) = remove1 nm (bindedEventNames st target)"
    by (rule splice1_indexOf)
  show ?thesis
  proof (cases "target = Kernel")
    case True
    with k obtain kr where "kernel st = Some kr" by auto
    with True h j f fn s1 s2 \<open>useless env st target nm\<close> show ?thesis
      by (simp add: removeEventListenerOnTargetWhenIsUseless_def detachCalls_def perform_def)
  next
    case False
    with h j f fn s1 s2 \<open>useless env st target nm\<close> show ?thesis
      by (simp add: removeEventListenerOnTargetWhenIsUseless_def detachCalls_def perform_def)
  qed
qed

lemma removeEventListener_consistent:
  assumes "removeEventListenerOnTargetWhenIsUseless env nm target st = Inr st'"
    and "\<forall>t. bindingConsistent st t"
  shows "bindingConsistent st' t"
proof (cases "target = Kernel \<and> kernel st = None \<and> useless env st target nm")
  case True
  then have h: "isEventNeedToBeHandled env target nm" "\<not> bus_hasEvents (buses st target)"
    and n: "nm \<in> set (bindedEventNames st target)"
    by (auto simp: useless_def)
  from n obtain j where j: "indexOf nm (bindedEventNames st target) = Some j"
    by (cases "indexOf nm (bindedEventNames st target)") (auto simp: indexOf_None_iff)
  from assms(2) have m: "map fst (bindedEventInfo st target) = bindedEventNames st target"
    by (simp add: bindingConsistent_def)
  from j m have "findBinded nm (bindedEventInfo st target) \<noteq> None"
    by (simp add: findBinded_indexOf)
  with True h j assms(1) show ?thesis
    by (auto simp: removeEventListenerOnTargetWhenIsUseless_def)
next
  case False
  show ?thesis
  proof (cases "useless env st target nm")
    case u: False
    then have "removeEventListenerOnTargetWhenIsUseless env nm target st = Inr st"
      by (auto simp: removeEventListenerOnTargetWhenIsUseless_def useless_def
            split: option.splits dest: indexOf_Some_mem)
    with assms show ?thesis by simp
  next
    case u: True
    with False have k: "target = Kernel \<longrightarrow> kernel st \<noteq> None" by auto
    from assms(2) have c: "bindingConsistent st target" by simp
    then have m: "map fst (bindedEventInfo st target) = bindedEventNames st target"
      and d: "distinct (map fst (bindedEventInfo st target))"
      by (simp_all add: bindingConsistent_def)
    from u have "nm \<in> set (map fst (bindedEventInfo st target))"
      by (simp add: useless_def m)
    then obtain fn where fn: "map_of (bindedEventInfo st target) nm = Some fn"
      by (metis map_of_eq_None_iff not_Some_eq set_map)
    from removeEventListener_closed_form [OF c k, of env nm] assms(1) u
    have st': "bindedEventInfo st' = (bindedEventInfo st)
                 (target := remove1 (nm, fn) (bindedEventInfo st target))"
              "bindedEventNames st' = (bindedEventNames st)
                 (target := remove1 nm (bindedEventNames st target))"
      using fn by (auto simp: perform_def)
    show ?thesis
    proof (cases "t = target")
      case True
      have "map fst (remove1 (nm, fn) (bindedEventInfo st target))
              = remove1 nm (map fst (bindedEventInfo st target))"
        by (rule map_fst_remove1_pair [OF d fn])
      then have e: "map fst (remove1 (nm, fn) (bindedEventInfo st target))
                      = remove1 nm (bindedEventNames st target)"
        by (simp only: m)
      from d have "distinct (remove1 nm (bindedEventNames st target))"
        by (simp add: m)
      with e st' True show ?thesis
        by (simp add: bindingConsistent_def)
    next
      case False
      with st' assms(2) show ?thesis
        by (simp add: bindingConsistent_def)
    qed
  qed
qed

lemma foldl_consistent:
  assumes "\<And>s x. \<forall>t. bindingConsistent s t \<Longrightarrow> \<forall>t. bindingConsistent (f s x) t"
    and "\<forall>t. bindingConsistent st t"
  shows "\<forall>t. bindingConsistent (foldl f st xs) t"
  using assms(2)
proof (induction xs arbitrary: st)
  case Nil
  then show ?case by simp
next
  case (Cons a xs)
  from assms(1) [OF Cons.prems] have "\<forall>t. bindingConsistent (f st a) t" .
  from Cons.IH [OF this] show ?case by simp
qed

lemma applyPendingEvents_consistent:
  assumes "\<forall>t. bindingConsistent st t"
  shows "\<forall>t. bindingConsistent (applyPendingEvents env target st) t"
proof -
  from assms
  have "\<forall>t. bindingConsistent (st\<lparr>pendingEventsInfo := (pendingEventsInfo st)(target := [])\<rparr>) t"
    by (simp add: bindingConsistent_def)
  then show ?thesis
    unfolding applyPendingEvents_def Let_def applyPendingLoop_rev
    by (rule foldl_consistent [rotated])
       (auto simp: addEventListenerOnTarget_consistent split: prod.splits)
qed

lemma listenOnMouseMoveEvent_consistent:
  assumes "\<forall>t. bindingConsistent st t"
  shows "\<forall>t. bindingConsistent (listenOnMouseMoveEvent env node st) t"
  unfolding listenOnMouseMoveEvent_def
proof (rule foldl_consistent [OF _ assms])
  fix s x
  assume "\<forall>t. bindingConsistent s t"
  then show "\<forall>t. bindingConsistent (listenOnMouseMoveEvent_each node s x) t"
    by (auto simp: listenOnMouseMoveEvent_each_def newClosure_def bindingConsistent_def
          pushBinding_def perform_def Let_def)
qed

lemma destroy_each_consistent:
  assumes "destroy_each st target = Inr st'" and "\<forall>t. bindingConsistent st t"
  shows "\<forall>t. bindingConsistent st' t"
  using assms
  by (auto simp: destroy_each_def bindingConsistent_def perform_def Let_def
        split: if_splits option.splits)

lemma destroy_loop_consistent:
  assumes "destroy_loop ts st = Inr st'" and "\<forall>t. bindingConsistent st t"
  shows "\<forall>t. bindingConsistent st' t"
  using assms
proof (induction ts arbitrary: st)
  case Nil
  then show ?case by simp
next
  case (Cons a ts)
  then show ?case
    by (auto split: sum.splits dest: destroy_each_consistent)
qed

lemma fanOut_consistent:
  assumes "runnable cond backup (fanOut call env) info st = Inr (st', r)"
    and "\<forall>t. bindingConsistent st t"
  shows "\<forall>t. bindingConsistent st' t"
  using assms
  by (auto simp: runnable_def fanOut_def Let_def split: if_splits js_value.splits)

lemma mouseMoveFn_consistent:
  assumes "mouseMoveFn env nm ev st = Inr (st', r)" and "\<forall>t. bindingConsistent st t"
  shows "\<forall>t. bindingConsistent st' t"
proof -
  have flag: "\<forall>t. bindingConsistent (st\<lparr>dom_mouseInVideo := b\<rparr>) t" for b
    using assms(2) by (simp add: bindingConsistent_def)
  from assms(1) show ?thesis
    using fanOut_consistent [OF _ flag] assms(2)
    by (auto simp: mouseMoveFn_def Let_def triggerSync_def split: if_splits)
qed

lemma runNativeFn_consistent:
  assumes "runNativeFn env cb ev st = Inr (st', r)" and "\<forall>t. bindingConsistent st t"
  shows "\<forall>t. bindingConsistent st' t"
proof (cases cb)
  case (Closure n body)
  with assms show ?thesis
    by (cases body)
       (auto simp: triggerSync_def trigger_def
          dest: fanOut_consistent mouseMoveFn_consistent)
qed

lemma on_consistent:
  assumes "on env info st = Inr st'" and "\<forall>t. bindingConsistent st t"
  shows "\<forall>t. bindingConsistent st' t"
proof -
  from assms(1) obtain w :: wholeEventInfo where
    st': "st' = (addEventListenerOnTarget env (w_name w) (w_target w) (w_id w) st)
            \<lparr>buses := (buses (addEventListenerOnTarget env (w_name w) (w_target w) (w_id w) st))
               (w_target w := bus_on (w_id w) (w_name w) (w_fn w) (w_stage w)
                  (buses (addEventListenerOnTarget env (w_name w) (w_target w) (w_id w) st)
                     (w_target w)))\<rparr>"
    by (auto simp: on_def Let_def split: sum.splits)
  from assms(2) have "\<forall>t. bindingConsistent
      (addEventListenerOnTarget env (w_name w) (w_target w) (w_id w) st) t"
    by (simp add: addEventListenerOnTarget_consistent)
  then show ?thesis
    unfolding st' by (simp add: bindingConsistent_def)
qed

lemma off_consistent:
  assumes "off env info st = Inr st'" and "\<forall>t. bindingConsistent st t"
  shows "\<forall>t. bindingConsistent st' t"
proof -
  from assms(1) obtain w :: wholeEventInfo where
    r: "removeEventListenerOnTargetWhenIsUseless env (w_name w) (w_target w)
          (st\<lparr>buses := (buses st)
                (w_target w := bus_off (w_id w) (w_name w) (w_fn w) (w_stage w)
                   (buses st (w_target w)))\<rparr>) = Inr st'"
    by (auto simp: off_def Let_def split: sum.splits)
  from assms(2) have "\<forall>t. bindingConsistent
      (st\<lparr>buses := (buses st)
            (w_target w := bus_off (w_id w) (w_name w) (w_fn w) (w_stage w)
               (buses st (w_target w)))\<rparr>) t"
    by (simp add: bindingConsistent_def)
  with r show ?thesis
    by (blast intro: removeEventListener_consistent)
qed

lemma once_consistent:
  assumes "once env info st = Inr st'" and "\<forall>t. bindingConsistent st t"
  shows "\<forall>t. bindingConsistent st' t"
  using assms by (auto simp: once_def bindingConsistent_def split: sum.splits)

lemma step_consistent:
  assumes "step env x st = Inr st'" and "\<forall>t. bindingConsistent st t"
  shows "\<forall>t. bindingConsistent st' t"
proof (cases x)
  case (On info)
  with assms show ?thesis by (auto dest: on_consistent)
next
  case (Off info)
  with assms show ?thesis by (auto dest: off_consistent)
next
  case (Once info)
  with assms show ?thesis by (auto dest: once_consistent)
next
  case (Emit info)
  with assms show ?thesis
    by (auto simp: dropResult_def emit_def split: sum.splits dest: fanOut_consistent)
next
  case (EmitSync info)
  with assms show ?thesis
    by (auto simp: dropResult_def emitSync_def split: sum.splits dest: fanOut_consistent)
next
  case (Trigger info)
  with assms show ?thesis
    by (auto simp: dropResult_def trigger_def split: sum.splits dest: fanOut_consistent)
next
  case (TriggerSync info)
  with assms show ?thesis
    by (auto simp: dropResult_def triggerSync_def split: sum.splits dest: fanOut_consistent)
next
  case (AddPendingEvent target nm i)
  with assms show ?thesis by (auto simp: addPendingEvent_def bindingConsistent_def)
next
  case (ApplyPendingEvents target)
  with assms show ?thesis by (auto simp: applyPendingEvents_consistent)
next
  case (BindEventOnPenetrateNode node remove)
  with assms show ?thesis by (auto simp: bindEventOnPenetrateNode_def)
next
  case (BindEventOnVideo node remove)
  with assms show ?thesis by (auto simp: bindEventOnVideo_def)
next
  case (ListenOnMouseMoveEvent node)
  with assms show ?thesis by (auto simp: listenOnMouseMoveEvent_consistent)
next
  case (MigrateKernelEvent oldKernel newKernel)
  with assms show ?thesis by (auto simp: migrateKernelEvent_def)
next
  case Destroy
  with assms show ?thesis by (auto simp: destroy_def dest: destroy_loop_consistent)
next
  case (NativeEvent cb ev)
  with assms show ?thesis
    by (auto simp: dropResult_def split: sum.splits dest: runNativeFn_consistent)
next
  case (HostSetKernel k)
  with assms show ?thesis by (auto simp: bindingConsistent_def)
next
  case (HostSetExtendedNodes ns)
  with assms show ?thesis by (auto simp: bindingConsistent_def)
qed

lemma run_consistent:
  assumes "run env xs st = Inr st'" and "\<forall>t. bindingConsistent st t"
  shows "\<forall>t. bindingConsistent st' t"
  using assms
proof (induction xs arbitrary: st)
  case Nil
  then show ?case by simp
next
  case (Cons x xs)
  from Cons.prems(1) obtain st1 where s: "step env x st = Inr st1" "run env xs st1 = Inr st'"
    by (auto split: sum.splits)
  from step_consistent [OF s(1) Cons.prems(2)] Cons.IH [OF s(2)] show ?case by blast
qed

lemma Binder_new_consistent: "bindingConsistent (Binder_new k c w v ext) t"
  by (simp add: bindingConsistent_def Binder_new_def)



lemma on_resolved:
  assumes "resolvesTo env info target nm"
  shows "\<exists>st'. on env info st = Inr st'
           \<and> effects st' = effects (addEventListenerOnTarget env nm target (raw_id info) st)
           \<and> bindedEventNames st' = bindedEventNames (addEventListenerOnTarget env nm target (raw_id info) st)
           \<and> kernel st' = kernel st"
  using assms
  by (simp add: resolvesTo_def on_def prettifyEventParameter_def Let_def
        addEventListenerOnTarget_host)

lemma on_sequence_idle:
  assumes "\<not> attachable env st target nm" and "\<forall>info\<in>set infos. resolvesTo env info target nm"
  shows "\<exists>st'. run env (map On infos) st = Inr st' \<and> effects st' = effects st
           \<and> bindedEventNames st' target = bindedEventNames st target"
  using assms
proof (induction infos arbitrary: st)
  case Nil
  then show ?case by simp
next
  case (Cons info infos)
  from Cons.prems(2) have r: "resolvesTo env info target nm" by simp
  from on_resolved [OF r, of st] obtain st1 where
    s: "on env info st = Inr st1"
       "effects st1 = effects (addEventListenerOnTarget env nm target (raw_id info) st)"
       "bindedEventNames st1 = bindedEventNames (addEventListenerOnTarget env nm target (raw_id info) st)"
       "kernel st1 = kernel st"
    by blast
  from Cons.prems(1) s have e: "effects st1 = effects st"
    and n: "bindedEventNames st1 target = bindedEventNames st target"
    by (auto simp: addEventListenerOnTarget_closed_form addPendingEvent_def)
  from Cons.prems(1) n s(4) have "\<not> attachable env st1 target nm"
    by (simp add: attachable_def)
  from Cons.IH [OF this] Cons.prems(2) obtain st' where
    "run env (map On infos) st1 = Inr st'" "effects st' = effects st1"
    "bindedEventNames st' target = bindedEventNames st1 target"
    by auto
  with s(1) e n show ?case by simp
qed

lemma on_sequence:
  assumes "\<forall>info\<in>set infos. resolvesTo env info target nm"
  shows "\<exists>st'. run env (map On infos) st = Inr st'
           \<and> effects st' = effects st
               @ (if infos \<noteq> [] \<and> attachable env st target nm
                  then attachCalls st target nm (Closure (nextClosure st) (nativeFnOf target nm))
                  else [])
           \<and> bindedEventNames st' target = bindedEventNames st target
               @ (if infos \<noteq> [] \<and> attachable env st target nm then [nm] else [])"
proof (cases infos)
  case Nil
  then show ?thesis by simp
next
  case (Cons info rest)
  with assms have r: "resolvesTo env info target nm"
    and rs: "\<forall>info\<in>set rest. resolvesTo env info target nm"
    by simp_all
  from on_resolved [OF r, of st] obtain st1 where
    s: "on env info st = Inr st1"
       "effects st1 = effects (addEventListenerOnTarget env nm target (raw_id info) st)"
       "bindedEventNames st1 = bindedEventNames (addEventListenerOnTarget env nm target (raw_id info) st)"
       "kernel st1 = kernel st"
    by blast
  have "\<not> attachable env (addEventListenerOnTarget env nm target (raw_id info) st) target nm"
    by (rule addEventListenerOnTarget_not_attachable)
  with s have "\<not> attachable env st1 target nm"
    by (simp add: attachable_def addEventListenerOnTarget_host)
  from on_sequence_idle [OF this rs] obtain st' where
    t: "run env (map On rest) st1 = Inr st'" "effects st' = effects st1"
       "bindedEventNames st' target = bindedEventNames st1 target"
    by blast
  have n: "bindedEventNames (addEventListenerOnTarget env nm target (raw_id info) st) target
             = bindedEventNames st target @ (if attachable env st target nm then [nm] else [])"
    by (simp add: addEventListenerOnTarget_closed_form pushBinding_def perform_def
          addPendingEvent_def)
  from Cons s t n show ?thesis
    by (simp add: addEventListenerOnTarget_effects)
qed

text \<open>
  C1, as the code has it. A new Binder satisfies the invariant of the NativeBinding, and
  every history of operations keeps it: for each target the bound names are the names of
  the recorded pairs, in the same order, without a duplicate. A sequence of \<open>on\<close> calls
  that resolve to one target and name attaches one new callback, once to each physical
  node of the target (the kernel; the node of the target; for \<open>video-dom\<close> every overlay
  node and the video element), when the sequence is not empty, the target needs handling,
  the name is not bound yet and, for \<open>kernel\<close>, the kernel exists. Otherwise it attaches
  nothing. The name is bound at most once.
\<close>

theorem native_listener_uniqueness:
  "bindingInvariant (Binder_new k c w v ext)
   \<and> (bindingInvariant st \<and> run env ops st = Inr st' \<longrightarrow> bindingInvariant st')
   \<and> ((\<forall>info\<in>set infos. resolvesTo env info target nm) \<longrightarrow>
        (\<exists>st''. run env (map On infos) st = Inr st''
           \<and> effects st'' = effects st
               @ (if infos \<noteq> [] \<and> attachable env st target nm
                  then attachCalls st target nm (Closure (nextClosure st) (nativeFnOf target nm))
                  else [])
           \<and> bindedEventNames st'' target = bindedEventNames st target
               @ (if infos \<noteq> [] \<and> attachable env st target nm then [nm] else [])))"
  using run_consistent [of env ops st st'] on_sequence [of infos env target nm st]
  by (simp add: bindingInvariant_iff Binder_new_consistent)


theorem native_listener_uniqueness_witness:
  "list_all (\<lambda>info. resolvesTo sample_env info Container ''click'') sample_clicks
   \<and> attachable sample_env sample_new Container ''click''
   \<and> effectsOf (run sample_env (map On sample_clicks) sample_new)
       = Some [AddEvent 1 ''click'' (Closure 0 (TriggerSyncFn Container ''click'' ''container''))]
   \<and> boundNamesOf (run sample_env (map On sample_clicks) sample_new) Container = Some [''click'']
   \<and> bindingInvariant (stateOf (run sample_env (map On sample_clicks) sample_new))"
proof -
  have r: "\<forall>info\<in>set sample_clicks. resolvesTo sample_env info Container ''click''"
    by code_simp
  have a: "attachable sample_env sample_new Container ''click''"
    by code_simp
  have c: "attachCalls sample_new Container ''click''
             (Closure (nextClosure sample_new) (nativeFnOf Container ''click''))
           = [AddEvent 1 ''click'' (Closure 0 (TriggerSyncFn Container ''click'' ''container''))]"
    by code_simp
  have e: "effects sample_new = []" "bindedEventNames sample_new Container = []"
          "sample_clicks \<noteq> []"
    by code_simp+
  have i: "bindingInvariant sample_new"
    using native_listener_uniqueness by (simp add: sample_new_def)
  from native_listener_uniqueness
         [of _ _ _ _ _ sample_new sample_env "map On sample_clicks" _ sample_clicks Container "''click''"]
       r
  obtain st'' where s: "run sample_env (map On sample_clicks) sample_new = Inr st''"
    "effects st'' = effects sample_new
       @ (if sample_clicks \<noteq> [] \<and> attachable sample_env sample_new Container ''click''
          then attachCalls sample_new Container ''click''
                 (Closure (nextClosure sample_new) (nativeFnOf Container ''click''))
          else [])"
    "bindedEventNames st'' Container = bindedEventNames sample_new Container
       @ (if sample_clicks \<noteq> [] \<and> attachable sample_env sample_new Container ''click''
          then [''click''] else [])"
    by blast
  from native_listener_uniqueness
         [of _ _ _ _ _ sample_new sample_env "map On sample_clicks" st''] i s(1)
  have "bindingInvariant st''" by blast
  with r a c e s show ?thesis
    by (simp add: effectsOf_def boundNamesOf_def stateOf_def list_all_iff)
qed

text \<open>
  C1, as the specification states it, fails: two \<open>on\<close> calls for the same name on target
  \<open>plugin\<close>, with different ids, attach no native listener at all, not exactly one.
\<close>

theorem on_plugin_attaches_nothing:
  "effectsOf
     (run sample_env
        (map On [sample_on ''p1'' ''ready'' (Some Plugin), sample_on ''p2'' ''ready'' (Some Plugin)])
        sample_new)
   = Some []
   \<and> resolvesTo sample_env (sample_on ''p1'' ''ready'' (Some Plugin)) Plugin ''ready''
   \<and> resolvesTo sample_env (sample_on ''p2'' ''ready'' (Some Plugin)) Plugin ''ready''"
  by code_simp

lemma bus_subscribers_hasEvents: "bus_subscribers nm b \<noteq> [] \<Longrightarrow> bus_hasEvents b"
  by (auto simp: bus_subscribers_def bus_hasEvents_def)

text \<open>
  C2, as the code has it. \<open>off\<close> removes the subscription from the Bus of the resolved
  target and then detaches the native listener of the name exactly when the target needs
  handling, the name is bound and the Bus reports no subscriber at all, of any name: the
  recorded callback is detached once from each physical node of the target and the name
  and its pair leave the NativeBinding. In every other case nothing is detached; in
  particular nothing is detached while a subscriber of that name remains.
\<close>

theorem off_detaches_when_bus_is_empty:
  assumes "bindingInvariant st" and "prettifyEventParameter env info = Inr w"
    and "w_target w = Kernel \<longrightarrow> kernel st \<noteq> None"
  shows "\<exists>st'. off env info st = Inr st'
           \<and> buses st' (w_target w)
               = bus_off (w_id w) (w_name w) (w_fn w) (w_stage w) (buses st (w_target w))
           \<and> (if isEventNeedToBeHandled env (w_target w) (w_name w)
                 \<and> w_name w \<in> set (bindedEventNames st (w_target w))
                 \<and> \<not> bus_hasEvents (buses st' (w_target w))
              then \<exists>fn. map_of (bindedEventInfo st (w_target w)) (w_name w) = Some fn
                     \<and> effects st' = effects st @ detachCalls st (w_target w) (w_name w) fn
                     \<and> bindedEventNames st' (w_target w)
                         = remove1 (w_name w) (bindedEventNames st (w_target w))
                     \<and> bindedEventInfo st' (w_target w)
                         = remove1 (w_name w, fn) (bindedEventInfo st (w_target w))
                     \<and> w_name w \<notin> set (bindedEventNames st' (w_target w))
              else effects st' = effects st
                     \<and> bindedEventNames st' = bindedEventNames st
                     \<and> bindedEventInfo st' = bindedEventInfo st)
           \<and> (bus_subscribers (w_name w) (buses st' (w_target w)) \<noteq> [] \<longrightarrow>
                effects st' = effects st \<and> bindedEventNames st' = bindedEventNames st)"
proof -
  define st1 where "st1 = st\<lparr>buses := (buses st)
      (w_target w := bus_off (w_id w) (w_name w) (w_fn w) (w_stage w) (buses st (w_target w)))\<rparr>"
  from assms(1) have c: "bindingConsistent st (w_target w)"
    by (simp add: bindingInvariant_iff)
  then have c1: "bindingConsistent st1 (w_target w)"
    by (simp add: st1_def bindingConsistent_def)
  from assms(3) have k1: "w_target w = Kernel \<longrightarrow> kernel st1 \<noteq> None"
    by (simp add: st1_def)
  from assms(2) have o: "off env info st
      = removeEventListenerOnTargetWhenIsUseless env (w_name w) (w_target w) st1"
    by (simp add: off_def Let_def st1_def)
  note cf = removeEventListener_closed_form [OF c1 k1, of env "w_name w"]
  show ?thesis
  proof (cases "useless env st1 (w_target w) (w_name w)")
    case False
    with cf o have "off env info st = Inr st1" by simp
    moreover from False
    have "\<not> (isEventNeedToBeHandled env (w_target w) (w_name w)
              \<and> w_name w \<in> set (bindedEventNames st (w_target w))
              \<and> \<not> bus_hasEvents (buses st1 (w_target w)))"
      by (simp add: useless_def st1_def)
    ultimately show ?thesis
      by (auto simp: st1_def)
  next
    case True
    then have u: "isEventNeedToBeHandled env (w_target w) (w_name w)"
      "w_name w \<in> set (bindedEventNames st (w_target w))"
      "\<not> bus_hasEvents (buses st1 (w_target w))"
      by (simp_all add: useless_def st1_def)
    from c have m: "map fst (bindedEventInfo st (w_target w)) = bindedEventNames st (w_target w)"
      and d: "distinct (bindedEventNames st (w_target w))"
      by (simp_all add: bindingConsistent_def)
    from u(2) m obtain fn where fn: "map_of (bindedEventInfo st (w_target w)) (w_name w) = Some fn"
      by (metis map_of_eq_None_iff not_Some_eq set_map)
    define st2 where "st2 = (perform (detachCalls st1 (w_target w) (w_name w) fn) st1)
        \<lparr>bindedEventInfo := (bindedEventInfo st1)
           (w_target w := remove1 (w_name w, fn) (bindedEventInfo st1 (w_target w))),
         bindedEventNames := (bindedEventNames st1)
           (w_target w := remove1 (w_name w) (bindedEventNames st1 (w_target w)))\<rparr>"
    from cf o True fn have r: "off env info st = Inr st2"
      by (simp add: st2_def st1_def)
    have dc: "detachCalls st1 (w_target w) (w_name w) fn = detachCalls st (w_target w) (w_name w) fn"
      by (cases "w_target w") (simp_all add: detachCalls_def st1_def getTargetDom_def)
    have b: "buses st2 (w_target w) = buses st1 (w_target w)"
      by (simp add: st2_def perform_def)
    from u(3) have ns: "bus_subscribers (w_name w) (buses st1 (w_target w)) = []"
      using bus_subscribers_hasEvents by blast
    from d have gone: "w_name w \<notin> set (remove1 (w_name w) (bindedEventNames st (w_target w)))"
      by simp
    from r u fn dc b ns gone show ?thesis
      by (simp add: st2_def st1_def perform_def)
  qed
qed


theorem off_detaches_when_bus_is_empty_witness:
  "bindingInvariant sample_subscribed
   \<and> prettifyEventParameter sample_env (sample_on ''p1'' ''mediaInfo'' (Some Kernel))
       = Inr \<lparr>w_fn = JFunction 0, w_id = ''p1'', w_name = ''mediaInfo'', w_stage = StageMain,
              w_target = Kernel\<rparr>
   \<and> kernel sample_subscribed = Some 7
   \<and> effectsOf (off sample_env (sample_on ''p1'' ''mediaInfo'' (Some Kernel)) sample_subscribed)
       = Some [KernelOn 7 ''mediaInfo'' (Closure 0 (TriggerSyncFn Kernel ''mediaInfo'' ''kernel'')),
               KernelOff 7 ''mediaInfo'' (Closure 0 (TriggerSyncFn Kernel ''mediaInfo'' ''kernel''))]
   \<and> boundNamesOf (off sample_env (sample_on ''p1'' ''mediaInfo'' (Some Kernel)) sample_subscribed)
         Kernel
       = Some []"
proof -
  let ?cb = "Closure 0 (TriggerSyncFn Kernel ''mediaInfo'' ''kernel'')"
  let ?w = "\<lparr>w_fn = JFunction 0, w_id = ''p1'', w_name = ''mediaInfo'', w_stage = StageMain,
             w_target = Kernel\<rparr>"
  have inv: "bindingInvariant sample_subscribed"
    by code_simp
  have p: "prettifyEventParameter sample_env (sample_on ''p1'' ''mediaInfo'' (Some Kernel)) = Inr ?w"
    by code_simp
  have k: "kernel sample_subscribed = Some 7"
    by code_simp
  then have k': "w_target ?w = Kernel \<longrightarrow> kernel sample_subscribed \<noteq> None"
    by simp
  have c: "isEventNeedToBeHandled sample_env Kernel ''mediaInfo''"
    "''mediaInfo'' \<in> set (bindedEventNames sample_subscribed Kernel)"
    "\<not> bus_hasEvents (bus_off ''p1'' ''mediaInfo'' (JFunction 0) StageMain
                        (buses sample_subscribed Kernel))"
    by code_simp+
  have v: "map_of (bindedEventInfo sample_subscribed Kernel) ''mediaInfo'' = Some ?cb"
    "effects sample_subscribed = [KernelOn 7 ''mediaInfo'' ?cb]"
    "detachCalls sample_subscribed Kernel ''mediaInfo'' ?cb = [KernelOff 7 ''mediaInfo'' ?cb]"
    "remove1 ''mediaInfo'' (bindedEventNames sample_subscribed Kernel) = []"
    by code_simp+
  from off_detaches_when_bus_is_empty [OF inv p k'] c v
  have "effectsOf (off sample_env (sample_on ''p1'' ''mediaInfo'' (Some Kernel)) sample_subscribed)
          = Some [KernelOn 7 ''mediaInfo'' ?cb, KernelOff 7 ''mediaInfo'' ?cb]
        \<and> boundNamesOf (off sample_env (sample_on ''p1'' ''mediaInfo'' (Some Kernel))
             sample_subscribed) Kernel = Some []"
    by (auto simp: effectsOf_def boundNamesOf_def)
  with inv p k show ?thesis by blast
qed

text \<open>
  C2, as the specification states it, fails: after the only subscriber of \<open>mediaInfo\<close> on
  \<open>kernel\<close> is removed while \<open>heartbeat\<close> still has one, no subscriber of \<open>mediaInfo\<close>
  remains, yet its native listener is not detached and the name stays bound.
\<close>

theorem off_keeps_listener_without_subscriber:
  "subscribersOf
     (run sample_env
        [On (sample_on ''p1'' ''mediaInfo'' (Some Kernel)),
         On (sample_on ''p2'' ''heartbeat'' (Some Kernel)),
         Off (sample_on ''p1'' ''mediaInfo'' (Some Kernel))] sample_new) Kernel ''mediaInfo''
     = Some []
   \<and> boundNamesOf
       (run sample_env
          [On (sample_on ''p1'' ''mediaInfo'' (Some Kernel)),
           On (sample_on ''p2'' ''heartbeat'' (Some Kernel)),
           Off (sample_on ''p1'' ''mediaInfo'' (Some Kernel))] sample_new) Kernel
     = Some [''mediaInfo'', ''heartbeat'']
   \<and> effectsOf
       (run sample_env
          [On (sample_on ''p1'' ''mediaInfo'' (Some Kernel)),
           On (sample_on ''p2'' ''heartbeat'' (Some Kernel)),
           Off (sample_on ''p1'' ''mediaInfo'' (Some Kernel))] sample_new)
     = Some [KernelOn 7 ''mediaInfo'' (Closure 0 (TriggerSyncFn Kernel ''mediaInfo'' ''kernel'')),
             KernelOn 7 ''heartbeat'' (Closure 1 (TriggerSyncFn Kernel ''heartbeat'' ''kernel''))]"
  by code_simp

end
